theory Spec2Isabelle
  imports Complex_Main
begin

section \<open>Data model of \<^verbatim>\<open>hammer/tech/__init__.py\<close>\<close>

text \<open>
  The pydantic models of the source become records. A field of a record is a global
  constant, so where two classes of the source share a field name (\<^verbatim>\<open>name\<close>,
  \<^verbatim>\<open>path\<close>, \<^verbatim>\<open>id\<close>, \<^verbatim>\<open>extra_prefixes\<close>) the smaller class carries a prefix;
  \<^verbatim>\<open>Library\<close> keeps the source's names. \<^verbatim>\<open>Optional[T]\<close> is \<open>T option\<close>.
\<close>

record Corner =
  nmos :: string
  pmos :: string
  temperature :: string

record MinMaxCap =
  max_cap :: string
  min_cap :: string

record Provide =
  lib_type :: string
  vt :: "string option"

record Supplies =
  GND :: string
  VDD :: string

record SpiceModelFile =
  smf_path :: string
  lib_corner :: string

record PathPrefix =
  pp_id :: string
  pp_path :: string

record Library =
  name :: "string option"
  ccs_liberty_file :: "string option"
  ccs_library_file :: "string option"
  ecsm_liberty_file :: "string option"
  ecsm_library_file :: "string option"
  corner :: "Corner option"
  itf_files :: "MinMaxCap option"
  lef_file :: "string option"
  klayout_techfile :: "string option"
  spice_file :: "string option"
  gds_file :: "string option"
  milkyway_lib_in_dir :: "string option"
  milkyway_techfile :: "string option"
  nldm_liberty_file :: "string option"
  nldm_library_file :: "string option"
  openaccess_techfile :: "string option"
  provides :: "Provide list option"
  qrc_techfile :: "string option"
  supplies :: "Supplies option"
  tluplus_files :: "MinMaxCap option"
  tluplus_map_file :: "string option"
  verilog_sim :: "string option"
  verilog_synth :: "string option"
  spice_model_file :: "SpiceModelFile option"
  power_grid_library :: "string option"
  extra_prefixes :: "PathPrefix list option"

record DRCDeck =
  drc_tool_name :: string
  drc_deck_name :: string
  drc_path :: string

record LVSDeck =
  lvs_tool_name :: string
  lvs_deck_name :: string
  lvs_path :: string

record Tarball =
  root :: PathPrefix
  homepage :: string
  optional :: bool

record Site =
  site_name :: string
  site_x :: rat
  site_y :: rat

text \<open>
  \<^verbatim>\<open>Stackup\<close> and \<^verbatim>\<open>SpecialCell\<close> come from the sibling modules \<^verbatim>\<open>.stackup\<close> and
  \<^verbatim>\<open>.specialcells\<close>; nothing below looks inside them, so they stay abstract types.
\<close>

typedecl Stackup
typedecl SpecialCell

record TechJSON =
  json_name :: string
  grid_unit :: "string option"
  shrink_factor :: "string option"
  installs :: "PathPrefix list option"
  libraries :: "Library list option"
  gds_map_file :: "string option"
  physical_only_cells_list :: "string list option"
  dont_use_list :: "string list option"
  drc_decks :: "DRCDeck list option"
  lvs_decks :: "LVSDeck list option"
  tarballs :: "Tarball list option"
  sites :: "Site list option"
  stackups :: "Stackup list option"
  special_cells :: "SpecialCell list option"
  tech_extra_prefixes :: "PathPrefix list option"
  additional_lvs_text :: "string option"
  additional_drc_text :: "string option"

subsection \<open>Settings database, logger, technology object, operating system\<close>

text \<open>
  A value of the settings database (\<^verbatim>\<open>hammer_config.HammerDatabase\<close>, an external
  collaborator). The shapes the code below distinguishes are Python's \<^verbatim>\<open>None\<close>, a
  string and a list; \<^verbatim>\<open>_database.get(key)\<close> raises \<^verbatim>\<open>KeyError\<close> on a key that
  is not configured, which is a key outside the domain of the map.
\<close>

datatype setting = SNone | SStr string | SList "setting list"

text \<open>Python truthiness of a settings value (\<^verbatim>\<open>if self.get_setting(...)\<close>).\<close>

fun truthy :: "setting \<Rightarrow> bool" where
  "truthy SNone = False"
| "truthy (SStr s) = (s \<noteq> [])"
| "truthy (SList xs) = (xs \<noteq> [])"

text \<open>What the code sends to \<^verbatim>\<open>self.logger\<close>.\<close>

datatype logmsg =
    Warning_no_supplies Library
  | Error_install_path string string
  | Debug_extracting string

text \<open>Every \<^verbatim>\<open>raise\<close>, failed \<^verbatim>\<open>assert\<close> and escaping library exception of the code.\<close>

datatype error =
    AssertionError_empty_path
  | AssertionError_resource string
  | ValueError_cache_dir
  | ValueError_logger
  | ValueError_database
  | AttributeError_database
  | ValidationError
  | TypeError
  | ValueError_no_match string string
  | ValueError_multiple_match string string
  | ValueError_no_lvs_decks
  | ValueError_no_drc_decks
  | ValueError_tarball string
  | ValueError_not_file string string
  | ValueError_not_dir string string
  | OSError string

text \<open>
  The attributes of a \<^verbatim>\<open>HammerTechnology\<close> object once \<^verbatim>\<open>load_from_module\<close> has
  filled in \<^verbatim>\<open>config\<close>. \<^verbatim>\<open>_cachedir\<close>, \<^verbatim>\<open>_logger\<close> and \<^verbatim>\<open>_database\<close> are attributes
  that may not have been set yet (reading them then raises), hence options. The logger is
  the list of messages it has received.
\<close>

record HammerTechnology =
  tech_name :: string
  package :: string
  config :: TechJSON
  cachedir :: "string option"
  logger :: "logmsg list option"
  database :: "(string \<rightharpoonup> setting) option"

text \<open>
  The part of the operating system the code asks about: which paths are regular files,
  which are directories, and where an importable package lives
  (\<^verbatim>\<open>importlib.resources.files(package)\<close>).
\<close>

record OS =
  os_files :: "string set"
  os_dirs :: "string set"
  os_package_dir :: "string \<Rightarrow> string"

definition isfile :: "OS \<Rightarrow> string \<Rightarrow> bool" where
  "isfile os p = (p \<in> os_files os)"

definition isdir :: "OS \<Rightarrow> string \<Rightarrow> bool" where
  "isdir os p = (p \<in> os_dirs os)"

definition path_exists :: "OS \<Rightarrow> string \<Rightarrow> bool" where
  "path_exists os p = (isfile os p \<or> isdir os p)"

subsection \<open>\<^verbatim>\<open>os.path\<close> and \<^verbatim>\<open>str.split\<close> on a POSIX system\<close>

definition sep :: char where
  "sep = CHR ''/''"

definition isabs :: "string \<Rightarrow> bool" where
  "isabs p = (case p of [] \<Rightarrow> False | c # _ \<Rightarrow> c = sep)"

text \<open>\<^verbatim>\<open>path.split(os.path.sep)\<close>: never empty, keeps empty segments.\<close>

fun split_sep :: "string \<Rightarrow> string list" where
  "split_sep [] = [[]]"
| "split_sep (c # cs) =
     (if c = sep then [] # split_sep cs
      else (case split_sep cs of w # ws \<Rightarrow> (c # w) # ws | [] \<Rightarrow> [[c]]))"

text \<open>
  One step of the loop of \<^verbatim>\<open>posixpath.join\<close>: an absolute component replaces what
  came before, otherwise it is appended after exactly one separator.
\<close>

definition join2 :: "string \<Rightarrow> string \<Rightarrow> string" where
  "join2 a b =
     (if isabs b then b
      else if a = [] \<or> last a = sep then a @ b
      else a @ [sep] @ b)"

text \<open>\<^verbatim>\<open>os.path.join(a, *p)\<close>.\<close>

definition path_join :: "string \<Rightarrow> string list \<Rightarrow> string" where
  "path_join a p = foldl join2 a p"

text \<open>\<^verbatim>\<open>PathPrefix.prepend\<close>.\<close>

definition prepend :: "PathPrefix \<Rightarrow> string \<Rightarrow> string" where
  "prepend pp rest_of_path = path_join (pp_path pp) [rest_of_path]"

subsection \<open>Settings access\<close>

text \<open>
  \<^verbatim>\<open>get_setting\<close> turns a missing database into a \<^verbatim>\<open>ValueError\<close> and a missing key
  into \<^verbatim>\<open>None\<close> (after printing the \<^verbatim>\<open>KeyError\<close>, which is not modelled);
  \<^verbatim>\<open>has_setting\<close> lets the \<^verbatim>\<open>AttributeError\<close> of a missing database escape.
\<close>

definition get_setting :: "HammerTechnology \<Rightarrow> string \<Rightarrow> error + setting" where
  "get_setting t key =
     (case database t of
        None \<Rightarrow> Inl ValueError_database
      | Some db \<Rightarrow> (case db key of None \<Rightarrow> Inr SNone | Some v \<Rightarrow> Inr v))"

definition has_setting :: "HammerTechnology \<Rightarrow> string \<Rightarrow> error + bool" where
  "has_setting t key =
     (case database t of
        None \<Rightarrow> Inl AttributeError_database
      | Some db \<Rightarrow> Inr (db key \<noteq> None))"

definition cache_dir :: "HammerTechnology \<Rightarrow> error + string" where
  "cache_dir t = (case cachedir t of None \<Rightarrow> Inl ValueError_cache_dir | Some d \<Rightarrow> Inr d)"

text \<open>
  \<^verbatim>\<open>self.logger.<level>(msg)\<close>: reading the \<^verbatim>\<open>logger\<close> property raises when no logger
  was set; otherwise the message is appended.
\<close>

definition log_msg :: "logmsg \<Rightarrow> HammerTechnology \<Rightarrow> error + HammerTechnology" where
  "log_msg m t =
     (case logger t of
        None \<Rightarrow> Inl ValueError_logger
      | Some ms \<Rightarrow> Inr (t\<lparr>logger := Some (ms @ [m])\<rparr>))"

text \<open>
  The property \<^verbatim>\<open>extracted_tarballs_dir\<close>. It hands back whatever the database holds,
  so its value is a setting; only the fallback under the cache directory is known to be
  a string.
\<close>

definition extracted_tarballs_dir :: "HammerTechnology \<Rightarrow> error + setting" where
  "extracted_tarballs_dir t =
     (let tech_setting_key = ''technology.'' @ tech_name t @ ''.extracted_tarballs_dir'';
          fallback =
            (case get_setting t ''vlsi.technology.extracted_tarballs_dir'' of
               Inl e \<Rightarrow> Inl e
             | Inr SNone \<Rightarrow>
                 (case cache_dir t of
                    Inl e \<Rightarrow> Inl e
                  | Inr d \<Rightarrow> Inr (SStr (path_join d [''extracted''])))
             | Inr v \<Rightarrow> Inr v)
      in case has_setting t tech_setting_key of
           Inl e \<Rightarrow> Inl e
         | Inr False \<Rightarrow> fallback
         | Inr True \<Rightarrow>
             (case get_setting t tech_setting_key of
                Inl e \<Rightarrow> Inl e
              | Inr SNone \<Rightarrow> fallback
              | Inr v \<Rightarrow> Inr v))"

text \<open>\<^verbatim>\<open>os.path.join(d, x)\<close> where \<^verbatim>\<open>d\<close> came out of the database: a non-string raises.\<close>

definition join_setting :: "setting \<Rightarrow> string \<Rightarrow> error + string" where
  "join_setting d x = (case d of SStr s \<Rightarrow> Inr (path_join s [x]) | _ \<Rightarrow> Inl TypeError)"

subsection \<open>Path prefix resolution: \<^verbatim>\<open>prepend_dir_path\<close>\<close>

text \<open>A list comprehension whose element expression may raise: the first raise wins.\<close>

fun map_err :: "('a \<Rightarrow> error + 'b) \<Rightarrow> 'a list \<Rightarrow> error + 'b list" where
  "map_err f [] = Inr []"
| "map_err f (x # xs) =
     (case f x of
        Inl e \<Rightarrow> Inl e
      | Inr y \<Rightarrow> (case map_err f xs of Inl e \<Rightarrow> Inl e | Inr ys \<Rightarrow> Inr (y # ys)))"

text \<open>
  \<^verbatim>\<open>PathPrefix(id=id, path=v)\<close> with \<^verbatim>\<open>v\<close> out of the database: pydantic validates the
  \<^verbatim>\<open>str\<close> field and rejects \<^verbatim>\<open>None\<close> and lists.
\<close>

definition make_PathPrefix :: "string \<Rightarrow> setting \<Rightarrow> error + PathPrefix" where
  "make_PathPrefix i v =
     (case v of SStr s \<Rightarrow> Inr \<lparr>pp_id = i, pp_path = s\<rparr> | _ \<Rightarrow> Inl ValidationError)"

text \<open>The three sources of candidates, in the order the code extends \<^verbatim>\<open>prefixes\<close>.\<close>

definition install_prefixes :: "HammerTechnology \<Rightarrow> string \<Rightarrow> error + PathPrefix list" where
  "install_prefixes t i =
     (case installs (config t) of
        None \<Rightarrow> Inr []
      | Some ins \<Rightarrow>
          if ins = [] then Inr []
          else map_err
                 (\<lambda>pp. case get_setting t (pp_path pp) of
                          Inl e \<Rightarrow> Inl e
                        | Inr v \<Rightarrow> make_PathPrefix i v)
                 (filter (\<lambda>pp. pp_id pp = i) ins))"

definition tarball_prefixes :: "HammerTechnology \<Rightarrow> string \<Rightarrow> error + PathPrefix list" where
  "tarball_prefixes t i =
     (case tarballs (config t) of
        None \<Rightarrow> Inr []
      | Some tbs \<Rightarrow>
          if tbs = [] then Inr []
          else map_err
                 (\<lambda>tb. case extracted_tarballs_dir t of
                          Inl e \<Rightarrow> Inl e
                        | Inr d \<Rightarrow>
                            (case join_setting d (pp_id (root tb)) of
                               Inl e \<Rightarrow> Inl e
                             | Inr p \<Rightarrow> Inr \<lparr>pp_id = i, pp_path = p\<rparr>))
                 (filter (\<lambda>tb. pp_id (root tb) = i) tbs))"

definition library_prefixes :: "Library option \<Rightarrow> string \<Rightarrow> PathPrefix list" where
  "library_prefixes lib i =
     (case lib of
        None \<Rightarrow> []
      | Some l \<Rightarrow>
          (case extra_prefixes l of
             None \<Rightarrow> []
           | Some eps \<Rightarrow> filter (\<lambda>pp. pp_id pp = i) eps))"

definition collect_prefixes ::
  "HammerTechnology \<Rightarrow> Library option \<Rightarrow> string \<Rightarrow> error + PathPrefix list" where
  "collect_prefixes t lib i =
     (case install_prefixes t i of
        Inl e \<Rightarrow> Inl e
      | Inr ps1 \<Rightarrow>
          (case tarball_prefixes t i of
             Inl e \<Rightarrow> Inl e
           | Inr ps2 \<Rightarrow> Inr (ps1 @ ps2 @ library_prefixes lib i)))"

text \<open>
  \<^verbatim>\<open>os.path.join(*rest_of_path)\<close>; with no argument at all Python raises
  \<^verbatim>\<open>TypeError\<close> (not reachable below, where the path contains a separator).
\<close>

definition join_star :: "string list \<Rightarrow> error + string" where
  "join_star segs = (case segs of [] \<Rightarrow> Inl TypeError | a # p \<Rightarrow> Inr (path_join a p))"

definition prepend_dir_path ::
  "OS \<Rightarrow> HammerTechnology \<Rightarrow> string \<Rightarrow> Library option \<Rightarrow> error + string" where
  "prepend_dir_path os t path lib =
     (if path = [] then Inl AssertionError_empty_path
      else if isabs path then Inr path
      else if sep \<notin> set path then
        (let resource_path = path_join (os_package_dir os (package t)) [path]
         in if isfile os resource_path then Inr resource_path
            else Inl (AssertionError_resource path))
      else
        (let i = hd (split_sep path);
             rest_of_path = tl (split_sep path)
         in if i = ''cache'' then
              (case cache_dir t of
                 Inl e \<Rightarrow> Inl e
               | Inr d \<Rightarrow> Inr (path_join d rest_of_path))
            else
              (case collect_prefixes t lib i of
                 Inl e \<Rightarrow> Inl e
               | Inr prefixes \<Rightarrow>
                   if length prefixes < 1 then Inl (ValueError_no_match path i)
                   else if length prefixes > 1 then Inl (ValueError_multiple_match path i)
                   else
                     (case join_star rest_of_path of
                        Inl e \<Rightarrow> Inl e
                      | Inr r \<Rightarrow> Inr (prepend (hd prefixes) r)))))"

text \<open>
  The candidates of the prefix search, before any path is looked up: the declared
  installs, archive roots and library prefixes whose identifier is \<open>i\<close>. These are the
  \<^verbatim>\<open>if pp.id == id\<close> parts of the three comprehensions above.
\<close>

definition matching_installs :: "HammerTechnology \<Rightarrow> string \<Rightarrow> PathPrefix list" where
  "matching_installs t i =
     filter (\<lambda>pp. pp_id pp = i) (case installs (config t) of None \<Rightarrow> [] | Some ins \<Rightarrow> ins)"

definition matching_tarballs :: "HammerTechnology \<Rightarrow> string \<Rightarrow> Tarball list" where
  "matching_tarballs t i =
     filter (\<lambda>tb. pp_id (root tb) = i) (case tarballs (config t) of None \<Rightarrow> [] | Some tbs \<Rightarrow> tbs)"

definition candidates :: "HammerTechnology \<Rightarrow> Library option \<Rightarrow> string \<Rightarrow> nat" where
  "candidates t lib i =
     length (matching_installs t i) + length (matching_tarballs t i)
       + length (library_prefixes lib i)"

subsection \<open>The supply pre-filter: \<^verbatim>\<open>filter_for_supplies\<close>\<close>

text \<open>
  The loop over \<^verbatim>\<open>lib.provides\<close> that looks for \<^verbatim>\<open>lib_type == "technology"\<close>
  (\<^verbatim>\<open>lib_type\<close> is a required string, so the test against \<^verbatim>\<open>None\<close> always passes).
\<close>

definition provides_technology :: "Library \<Rightarrow> bool" where
  "provides_technology lib =
     (case provides lib of
        None \<Rightarrow> False
      | Some ps \<Rightarrow> list_ex (\<lambda>provided. lib_type provided = ''technology'') ps)"

text \<open>\<^verbatim>\<open>self.get_setting(key) == s\<close> for a string \<^verbatim>\<open>s\<close>.\<close>

definition setting_eq_str :: "setting \<Rightarrow> string \<Rightarrow> bool" where
  "setting_eq_str v s = (v = SStr s)"

text \<open>
  Stateful operations return the result (or the exception) together with the technology
  object as the call leaves it.
\<close>

definition filter_for_supplies ::
  "HammerTechnology \<Rightarrow> Library \<Rightarrow> (error + bool) \<times> HammerTechnology" where
  "filter_for_supplies t lib =
     (case get_setting t ''vlsi.inputs.mmmc_corners'' of
        Inl e \<Rightarrow> (Inl e, t)
      | Inr mmmc \<Rightarrow>
          if truthy mmmc then (Inr True, t)
          else
            (case supplies lib of
               None \<Rightarrow>
                 if provides_technology lib then (Inr True, t)
                 else
                   (case log_msg (Warning_no_supplies lib) t of
                      Inl e \<Rightarrow> (Inl e, t)
                    | Inr t' \<Rightarrow> (Inr True, t'))
             | Some s \<Rightarrow>
                 (case get_setting t ''vlsi.inputs.supplies.VDD'' of
                    Inl e \<Rightarrow> (Inl e, t)
                  | Inr vdd \<Rightarrow>
                      if \<not> setting_eq_str vdd (VDD s) then (Inr False, t)
                      else
                        (case get_setting t ''vlsi.inputs.supplies.GND'' of
                           Inl e \<Rightarrow> (Inl e, t)
                         | Inr gnd \<Rightarrow> (Inr (setting_eq_str gnd (GND s)), t)))))"

subsection \<open>Installs: \<^verbatim>\<open>check_installs\<close>\<close>

text \<open>
  Python's \<^verbatim>\<open>str(v)\<close> of a settings value. For a string inside a list Python prints
  its \<^verbatim>\<open>repr\<close>; the model puts it between single quotes, which is that \<^verbatim>\<open>repr\<close> for a
  string of printable characters without quotes and backslashes.
\<close>

fun sep_by :: "string \<Rightarrow> string list \<Rightarrow> string" where
  "sep_by s [] = []"
| "sep_by s [x] = x"
| "sep_by s (x # y # ys) = x @ s @ sep_by s (y # ys)"

fun py_repr :: "setting \<Rightarrow> string" where
  "py_repr SNone = ''None''"
| "py_repr (SStr s) = [CHR 0x27] @ s @ [CHR 0x27]"
| "py_repr (SList xs) = ''['' @ sep_by '', '' (map py_repr xs) @ '']''"

fun py_str :: "setting \<Rightarrow> string" where
  "py_str (SStr s) = s"
| "py_str v = py_repr v"

text \<open>
  \<^verbatim>\<open>path_key = install.path; install_path = str(self.get_setting(path_key))\<close>: the
  \<^verbatim>\<open>path\<close> of an install is a key of the settings database.
\<close>

definition resolve_install :: "HammerTechnology \<Rightarrow> PathPrefix \<Rightarrow> error + string" where
  "resolve_install t install =
     (let path_key = pp_path install
      in case get_setting t path_key of Inl e \<Rightarrow> Inl e | Inr v \<Rightarrow> Inr (py_str v))"

fun check_installs_loop ::
  "OS \<Rightarrow> HammerTechnology \<Rightarrow> PathPrefix list \<Rightarrow> (error + bool) \<times> HammerTechnology" where
  "check_installs_loop os t [] = (Inr True, t)"
| "check_installs_loop os t (install # rest) =
     (case resolve_install t install of
        Inl e \<Rightarrow> (Inl e, t)
      | Inr install_path \<Rightarrow>
          if \<not> path_exists os install_path then
            (case log_msg (Error_install_path install_path (pp_path install)) t of
               Inl e \<Rightarrow> (Inl e, t)
             | Inr t' \<Rightarrow> (Inr False, t'))
          else check_installs_loop os t rest)"

definition check_installs :: "OS \<Rightarrow> HammerTechnology \<Rightarrow> (error + bool) \<times> HammerTechnology" where
  "check_installs os t =
     (case installs (config t) of
        None \<Rightarrow> (Inr False, t)
      | Some ins \<Rightarrow> if ins = [] then (Inr False, t) else check_installs_loop os t ins)"

subsection \<open>Archives: \<^verbatim>\<open>extract_tarballs\<close>\<close>







subsection \<open>Deck accessors\<close>

text \<open>
  \<^verbatim>\<open>for deck in self.config.lvs_decks: deck.path = self.prepend_dir_path(deck.path)\<close>.
  The loop overwrites the path of each deck object inside the descriptor; when a path
  fails to resolve, the decks before it have been overwritten already and the rest are as
  they were. \<^verbatim>\<open>prepend_dir_path\<close> reads installs, archives and settings and never the
  deck lists, so every iteration can resolve against the technology object of the call.
\<close>

fun resolve_lvs_decks ::
  "OS \<Rightarrow> HammerTechnology \<Rightarrow> LVSDeck list \<Rightarrow> error option \<times> LVSDeck list" where
  "resolve_lvs_decks os t [] = (None, [])"
| "resolve_lvs_decks os t (deck # rest) =
     (case prepend_dir_path os t (lvs_path deck) None of
        Inl e \<Rightarrow> (Some e, deck # rest)
      | Inr p \<Rightarrow>
          (case resolve_lvs_decks os t rest of
             (r, rest') \<Rightarrow> (r, deck\<lparr>lvs_path := p\<rparr> # rest')))"

definition get_lvs_decks_for_tool ::
  "OS \<Rightarrow> HammerTechnology \<Rightarrow> string \<Rightarrow> (error + LVSDeck list) \<times> HammerTechnology" where
  "get_lvs_decks_for_tool os t tool_name =
     (case lvs_decks (config t) of
        None \<Rightarrow> (Inl ValueError_no_lvs_decks, t)
      | Some decks \<Rightarrow>
          (case resolve_lvs_decks os t decks of
             (r, decks') \<Rightarrow>
               (let t' = t\<lparr>config := (config t)\<lparr>lvs_decks := Some decks'\<rparr>\<rparr>
                in case r of
                     Some e \<Rightarrow> (Inl e, t')
                   | None \<Rightarrow> (Inr (filter (\<lambda>x. lvs_tool_name x = tool_name) decks'), t'))))"

fun resolve_drc_decks ::
  "OS \<Rightarrow> HammerTechnology \<Rightarrow> DRCDeck list \<Rightarrow> error option \<times> DRCDeck list" where
  "resolve_drc_decks os t [] = (None, [])"
| "resolve_drc_decks os t (deck # rest) =
     (case prepend_dir_path os t (drc_path deck) None of
        Inl e \<Rightarrow> (Some e, deck # rest)
      | Inr p \<Rightarrow>
          (case resolve_drc_decks os t rest of
             (r, rest') \<Rightarrow> (r, deck\<lparr>drc_path := p\<rparr> # rest')))"

definition get_drc_decks_for_tool ::
  "OS \<Rightarrow> HammerTechnology \<Rightarrow> string \<Rightarrow> (error + DRCDeck list) \<times> HammerTechnology" where
  "get_drc_decks_for_tool os t tool_name =
     (case drc_decks (config t) of
        None \<Rightarrow> (Inl ValueError_no_drc_decks, t)
      | Some decks \<Rightarrow>
          (case resolve_drc_decks os t decks of
             (r, decks') \<Rightarrow>
               (let t' = t\<lparr>config := (config t)\<lparr>drc_decks := Some decks'\<rparr>\<rparr>
                in case r of
                     Some e \<Rightarrow> (Inl e, t')
                   | None \<Rightarrow> (Inr (filter (\<lambda>x. drc_tool_name x = tool_name) decks'), t'))))"

subsection \<open>Library filters\<close>

record LibraryFilter =
  tag :: string
  description :: string
  is_file :: bool
  paths_func :: "Library \<Rightarrow> error + string list"
  extraction_func :: "(Library \<Rightarrow> string list \<Rightarrow> error + string list) option"
  filter_func :: "(Library \<Rightarrow> error + bool) option"
  sort_func :: "(Library \<Rightarrow> int) option"
  extra_post_filter_funcs :: "(string list \<Rightarrow> error + string list) list"

text \<open>\<^verbatim>\<open>paths_func\<close> of \<^verbatim>\<open>LibraryFilterHolder.timing_db_filter\<close>.\<close>

definition timing_db_paths_func :: "Library \<Rightarrow> string list" where
  "timing_db_paths_func lib =
     (case ccs_library_file lib of
        Some p \<Rightarrow> [p]
      | None \<Rightarrow> (case nldm_library_file lib of Some p \<Rightarrow> [p] | None \<Rightarrow> []))"

definition timing_db_filter :: LibraryFilter where
  "timing_db_filter =
     \<lparr>tag = ''timing_db'', description = ''CCS/NLDM timing lib (Synopsys .db)'',
      is_file = True, paths_func = (\<lambda>lib. Inr (timing_db_paths_func lib)),
      extraction_func = None, filter_func = None, sort_func = None,
      extra_post_filter_funcs = []\<rparr>"

text \<open>\<^verbatim>\<open>paths_func\<close> of \<^verbatim>\<open>LibraryFilterHolder.timing_lib_filter\<close>.\<close>

definition timing_lib_paths_func :: "Library \<Rightarrow> string list" where
  "timing_lib_paths_func lib =
     (case ccs_liberty_file lib of
        Some p \<Rightarrow> [p]
      | None \<Rightarrow> (case nldm_liberty_file lib of Some p \<Rightarrow> [p] | None \<Rightarrow> []))"

definition timing_lib_filter :: LibraryFilter where
  "timing_lib_filter =
     \<lparr>tag = ''timing_lib'', description = ''CCS/NLDM timing lib (ASCII .lib)'',
      is_file = True, paths_func = (\<lambda>lib. Inr (timing_lib_paths_func lib)),
      extraction_func = None, filter_func = None, sort_func = None,
      extra_post_filter_funcs = []\<rparr>"

text \<open>\<^verbatim>\<open>HammerTechnologyUtils.to_plain_item\<close> and \<^verbatim>\<open>to_command_line_args\<close>.\<close>

definition to_plain_item :: "string \<Rightarrow> LibraryFilter \<Rightarrow> error + string list" where
  "to_plain_item lib_item filt = Inr [lib_item]"

definition to_command_line_args :: "string \<Rightarrow> LibraryFilter \<Rightarrow> error + string list" where
  "to_command_line_args lib_item filt = Inr [''--'' @ tag filt, lib_item]"

subsection \<open>Helpers of \<^verbatim>\<open>hammer.utils\<close>\<close>

text \<open>
  Modelled from the spec: \<^verbatim>\<open>hammer.utils.in_place_unique\<close> is not among the sources.
  The spec's de-duplication step removes later duplicates and preserves first-occurrence
  order: an item is kept the first time it is met and dropped every time after.
\<close>

fun unique_from :: "'a list \<Rightarrow> 'a list \<Rightarrow> 'a list" where
  "unique_from seen [] = []"
| "unique_from seen (item # items) =
     (if item \<in> set seen then unique_from seen items
      else item # unique_from (item # seen) items)"

definition in_place_unique :: "'a list \<Rightarrow> 'a list" where
  "in_place_unique items = unique_from [] items"

text \<open>
  Modelled from the spec: \<^verbatim>\<open>hammer.utils.add_lists\<close> and \<^verbatim>\<open>reduce_list_str\<close> are not
  among the sources. The spec concatenates the per-library outputs across all libraries
  in library order, and flattens the formatted items.
\<close>

definition add_lists :: "'a list \<Rightarrow> 'a list \<Rightarrow> 'a list" where
  "add_lists a b = a @ b"

definition reduce_list_str ::
  "(string list \<Rightarrow> string list \<Rightarrow> string list) \<Rightarrow> string list list \<Rightarrow> string list \<Rightarrow> string list" where
  "reduce_list_str f xs initial = foldl f initial xs"

text \<open>
  Modelled from the spec: \<^verbatim>\<open>hammer.utils.get_or_else\<close> and \<^verbatim>\<open>optional_map\<close> are not
  among the sources. The spec applies the filter's own \<^verbatim>\<open>filter_func\<close> if present and
  defaults \<^verbatim>\<open>extraction_func\<close> to the identity: an absent value gives the default.
\<close>

definition get_or_else :: "'a option \<Rightarrow> 'a \<Rightarrow> 'a" where
  "get_or_else opt dflt = (case opt of None \<Rightarrow> dflt | Some x \<Rightarrow> x)"

definition optional_map :: "'a option \<Rightarrow> ('a \<Rightarrow> 'b) \<Rightarrow> 'b option" where
  "optional_map opt f = (case opt of None \<Rightarrow> None | Some x \<Rightarrow> Some (f x))"

subsection \<open>The filter execution engine: \<^verbatim>\<open>process_library_filter\<close>\<close>

type_synonym pre_filter = "HammerTechnology \<Rightarrow> Library \<Rightarrow> (error + bool) \<times> HammerTechnology"

text \<open>A \<^verbatim>\<open>filter_func\<close> of a filter has no access to the technology object.\<close>

definition lift_filter_func :: "(Library \<Rightarrow> error + bool) \<Rightarrow> pre_filter" where
  "lift_filter_func f = (\<lambda>t lib. (f lib, t))"

text \<open>
  Modelled from the spec: \<^verbatim>\<open>hammer.utils.reduce_named\<close> is not among the sources. The
  spec applies every predicate of the pre-filters and then the filter's own, with
  short-circuit: a library survives only if every predicate returns true; and it applies
  the list-level functions in declared order. In the code the reduction nests one lazy
  \<^verbatim>\<open>filter\<close> per predicate and \<^verbatim>\<open>list\<close> pulls the libraries through one at a time, so
  each library meets the predicates in order until one rejects it, before the next
  library is looked at.
\<close>

fun passes :: "pre_filter list \<Rightarrow> HammerTechnology \<Rightarrow> Library \<Rightarrow> (error + bool) \<times> HammerTechnology" where
  "passes [] t lib = (Inr True, t)"
| "passes (f # fs) t lib =
     (case f t lib of
        (Inl e, t') \<Rightarrow> (Inl e, t')
      | (Inr b, t') \<Rightarrow> if b then passes fs t' lib else (Inr False, t'))"

fun select_libs ::
  "pre_filter list \<Rightarrow> Library list \<Rightarrow> HammerTechnology \<Rightarrow> (error + Library list) \<times> HammerTechnology" where
  "select_libs fs [] t = (Inr [], t)"
| "select_libs fs (lib # libs) t =
     (case passes fs t lib of
        (Inl e, t') \<Rightarrow> (Inl e, t')
      | (Inr b, t') \<Rightarrow>
          (case select_libs fs libs t' of
             (Inl e, t'') \<Rightarrow> (Inl e, t'')
           | (Inr kept, t'') \<Rightarrow> (Inr (if b then lib # kept else kept), t'')))"

definition tech_defined_libraries :: "HammerTechnology \<Rightarrow> Library list" where
  "tech_defined_libraries t =
     (case libraries (config t) of None \<Rightarrow> [] | Some ls \<Rightarrow> if ls = [] then [] else ls)"

text \<open>
  \<^verbatim>\<open>get_available_libraries\<close>. The extra libraries are parsed out of a settings
  dictionary by pydantic, outside the sources; \<open>extra\<close> is the list
  \<^verbatim>\<open>map(lambda el: el.store_into_library(), self.get_extra_libraries())\<close>.
\<close>

definition get_available_libraries :: "HammerTechnology \<Rightarrow> Library list \<Rightarrow> Library list" where
  "get_available_libraries t extra = tech_defined_libraries t @ extra"

definition get_and_prepend_path ::
  "OS \<Rightarrow> HammerTechnology \<Rightarrow> LibraryFilter \<Rightarrow> Library \<Rightarrow> error + Library \<times> string list" where
  "get_and_prepend_path os t filt lib =
     (case paths_func filt lib of
        Inl e \<Rightarrow> Inl e
      | Inr paths \<Rightarrow>
          (case map_err (\<lambda>path. prepend_dir_path os t path (Some lib)) paths of
             Inl e \<Rightarrow> Inl e
           | Inr full_paths \<Rightarrow> Inr (lib, full_paths)))"

definition make_check_isdir :: "OS \<Rightarrow> string \<Rightarrow> string \<Rightarrow> error + string" where
  "make_check_isdir os descr path =
     (if \<not> isdir os path then Inl (ValueError_not_dir descr path) else Inr path)"

definition make_check_isfile :: "OS \<Rightarrow> string \<Rightarrow> string \<Rightarrow> error + string" where
  "make_check_isfile os descr path =
     (if \<not> isfile os path then Inl (ValueError_not_file descr path) else Inr path)"

definition check_lib_and_paths ::
  "OS \<Rightarrow> LibraryFilter \<Rightarrow> Library \<times> string list \<Rightarrow> error + Library \<times> string list" where
  "check_lib_and_paths os filt inp =
     (let lib = fst inp; paths = snd inp;
          existence_check_func =
            (if is_file filt then make_check_isfile os (description filt)
             else make_check_isdir os (description filt))
      in case map_err existence_check_func paths of
           Inl e \<Rightarrow> Inl e
         | Inr paths' \<Rightarrow> Inr (lib, paths'))"

definition identity_extraction_func :: "Library \<Rightarrow> string list \<Rightarrow> error + string list" where
  "identity_extraction_func lib paths = Inr paths"

text \<open>The list-level functions, applied in declared order; the first raise ends the run.\<close>

fun apply_post_filters ::
  "(string list \<Rightarrow> error + string list) list \<Rightarrow> string list \<Rightarrow> error + string list" where
  "apply_post_filters [] libs = Inr libs"
| "apply_post_filters (func # funcs) libs =
     (case func libs of Inl e \<Rightarrow> Inl e | Inr libs' \<Rightarrow> apply_post_filters funcs libs')"

text \<open>
  The stages after selection, which no longer touch the technology object. The check
  that \<^verbatim>\<open>output_list\<close> is a list of strings is what the type of \<open>output_list\<close> says.
\<close>

definition process_selected ::
  "OS \<Rightarrow> HammerTechnology \<Rightarrow> LibraryFilter \<Rightarrow> (string \<Rightarrow> LibraryFilter \<Rightarrow> error + string list) \<Rightarrow>
   bool \<Rightarrow> bool \<Rightarrow> Library list \<Rightarrow> error + string list" where
  "process_selected os t filt output_func must_exist uniquify filtered_libs =
     (let sorted_libs =
            (case sort_func filt of None \<Rightarrow> filtered_libs | Some key \<Rightarrow> sort_key key filtered_libs)
      in case map_err (get_and_prepend_path os t filt) sorted_libs of
           Inl e \<Rightarrow> Inl e
         | Inr libs_and_paths \<Rightarrow>
             (case (if must_exist then map_err (check_lib_and_paths os filt) libs_and_paths
                    else Inr libs_and_paths) of
                Inl e \<Rightarrow> Inl e
              | Inr checked \<Rightarrow>
                  (let extraction = get_or_else (extraction_func filt) identity_extraction_func
                   in case map_err (\<lambda>lp. extraction (fst lp) (snd lp)) checked of
                        Inl e \<Rightarrow> Inl e
                      | Inr extracted \<Rightarrow>
                          (let output_list = reduce_list_str add_lists extracted [];
                               unique_list =
                                 (if uniquify then in_place_unique output_list else output_list)
                           in case apply_post_filters (extra_post_filter_funcs filt) unique_list of
                                Inl e \<Rightarrow> Inl e
                              | Inr after_post_filter \<Rightarrow>
                                  (case map_err (\<lambda>item. output_func item filt) after_post_filter of
                                     Inl e \<Rightarrow> Inl e
                                   | Inr after_output_functions \<Rightarrow>
                                       Inr (reduce_list_str add_lists after_output_functions []))))))"

definition process_library_filter ::
  "OS \<Rightarrow> HammerTechnology \<Rightarrow> Library list \<Rightarrow> LibraryFilter \<Rightarrow> pre_filter list \<Rightarrow>
   (string \<Rightarrow> LibraryFilter \<Rightarrow> error + string list) \<Rightarrow> bool \<Rightarrow> bool \<Rightarrow>
   (error + string list) \<times> HammerTechnology" where
  "process_library_filter os t extra filt pre_filts output_func must_exist uniquify =
     (let lib_filters =
            pre_filts @ get_or_else (optional_map (filter_func filt) (\<lambda>x. [lift_filter_func x])) []
      in case select_libs lib_filters (get_available_libraries t extra) t of
           (Inl e, t') \<Rightarrow> (Inl e, t')
         | (Inr filtered_libs, t') \<Rightarrow>
             (process_selected os t' filt output_func must_exist uniquify filtered_libs, t'))"

definition default_pre_filters :: "pre_filter list" where
  "default_pre_filters = [filter_for_supplies]"

subsection \<open>Copying a library through JSON: \<^verbatim>\<open>copy_library\<close>, \<^verbatim>\<open>store_into_library\<close>\<close>

text \<open>
  \<^verbatim>\<open>copy_library\<close> serialises the library with pydantic (\<^verbatim>\<open>lib.json()\<close>) and parses
  the text back (\<^verbatim>\<open>Library.parse_raw\<close>). The model works on the JSON value between
  the two; the shapes a library serialises to are null, strings, arrays and objects.
\<close>

datatype json = JNull | JString string | JArray "json list" | JObject "(string \<times> json) list"

definition bind_err :: "error + 'a \<Rightarrow> ('a \<Rightarrow> error + 'b) \<Rightarrow> error + 'b" where
  "bind_err m f = (case m of Inl e \<Rightarrow> Inl e | Inr x \<Rightarrow> f x)"

definition json_opt :: "('a \<Rightarrow> json) \<Rightarrow> 'a option \<Rightarrow> json" where
  "json_opt f x = (case x of None \<Rightarrow> JNull | Some v \<Rightarrow> f v)"

definition json_list :: "('a \<Rightarrow> json) \<Rightarrow> 'a list \<Rightarrow> json" where
  "json_list f xs = JArray (map f xs)"

definition Corner_json :: "Corner \<Rightarrow> json" where
  "Corner_json c =
     JObject [(''nmos'', JString (nmos c)), (''pmos'', JString (pmos c)),
              (''temperature'', JString (temperature c))]"

definition MinMaxCap_json :: "MinMaxCap \<Rightarrow> json" where
  "MinMaxCap_json c =
     JObject [(''max_cap'', JString (max_cap c)), (''min_cap'', JString (min_cap c))]"

definition Provide_json :: "Provide \<Rightarrow> json" where
  "Provide_json p =
     JObject [(''lib_type'', JString (lib_type p)), (''vt'', json_opt JString (vt p))]"

definition Supplies_json :: "Supplies \<Rightarrow> json" where
  "Supplies_json s = JObject [(''GND'', JString (GND s)), (''VDD'', JString (VDD s))]"

definition SpiceModelFile_json :: "SpiceModelFile \<Rightarrow> json" where
  "SpiceModelFile_json f =
     JObject [(''path'', JString (smf_path f)), (''lib_corner'', JString (lib_corner f))]"

definition PathPrefix_json :: "PathPrefix \<Rightarrow> json" where
  "PathPrefix_json pp = JObject [(''id'', JString (pp_id pp)), (''path'', JString (pp_path pp))]"

definition Library_json :: "Library \<Rightarrow> json" where
  "Library_json lib =
     JObject
       [(''name'', json_opt JString (name lib)),
        (''ccs_liberty_file'', json_opt JString (ccs_liberty_file lib)),
        (''ccs_library_file'', json_opt JString (ccs_library_file lib)),
        (''ecsm_liberty_file'', json_opt JString (ecsm_liberty_file lib)),
        (''ecsm_library_file'', json_opt JString (ecsm_library_file lib)),
        (''corner'', json_opt Corner_json (corner lib)),
        (''itf_files'', json_opt MinMaxCap_json (itf_files lib)),
        (''lef_file'', json_opt JString (lef_file lib)),
        (''klayout_techfile'', json_opt JString (klayout_techfile lib)),
        (''spice_file'', json_opt JString (spice_file lib)),
        (''gds_file'', json_opt JString (gds_file lib)),
        (''milkyway_lib_in_dir'', json_opt JString (milkyway_lib_in_dir lib)),
        (''milkyway_techfile'', json_opt JString (milkyway_techfile lib)),
        (''nldm_liberty_file'', json_opt JString (nldm_liberty_file lib)),
        (''nldm_library_file'', json_opt JString (nldm_library_file lib)),
        (''openaccess_techfile'', json_opt JString (openaccess_techfile lib)),
        (''provides'', json_opt (json_list Provide_json) (provides lib)),
        (''qrc_techfile'', json_opt JString (qrc_techfile lib)),
        (''supplies'', json_opt Supplies_json (supplies lib)),
        (''tluplus_files'', json_opt MinMaxCap_json (tluplus_files lib)),
        (''tluplus_map_file'', json_opt JString (tluplus_map_file lib)),
        (''verilog_sim'', json_opt JString (verilog_sim lib)),
        (''verilog_synth'', json_opt JString (verilog_synth lib)),
        (''spice_model_file'', json_opt SpiceModelFile_json (spice_model_file lib)),
        (''power_grid_library'', json_opt JString (power_grid_library lib)),
        (''extra_prefixes'', json_opt (json_list PathPrefix_json) (extra_prefixes lib))]"

text \<open>
  Validation of a parsed JSON value against the model classes. A key that occurs twice
  keeps its last value (\<^verbatim>\<open>json.loads\<close>); keys that are no fields are ignored; a missing
  or null optional field is \<^verbatim>\<open>None\<close>; a required field must be present.
\<close>

definition fields_of :: "(string \<times> json) list \<Rightarrow> string \<Rightarrow> json option" where
  "fields_of kvs = map_of (rev kvs)"

definition parse_str :: "json \<Rightarrow> error + string" where
  "parse_str j = (case j of JString s \<Rightarrow> Inr s | _ \<Rightarrow> Inl ValidationError)"

definition parse_req :: "(json \<Rightarrow> error + 'a) \<Rightarrow> json option \<Rightarrow> error + 'a" where
  "parse_req f j = (case j of None \<Rightarrow> Inl ValidationError | Some v \<Rightarrow> f v)"

definition parse_opt :: "(json \<Rightarrow> error + 'a) \<Rightarrow> json option \<Rightarrow> error + 'a option" where
  "parse_opt f j =
     (case j of
        None \<Rightarrow> Inr None
      | Some JNull \<Rightarrow> Inr None
      | Some v \<Rightarrow> bind_err (f v) (\<lambda>x. Inr (Some x)))"

definition parse_list :: "(json \<Rightarrow> error + 'a) \<Rightarrow> json \<Rightarrow> error + 'a list" where
  "parse_list f j = (case j of JArray xs \<Rightarrow> map_err f xs | _ \<Rightarrow> Inl ValidationError)"

definition parse_Corner :: "json \<Rightarrow> error + Corner" where
  "parse_Corner j =
     (case j of
        JObject kvs \<Rightarrow>
          (let m = fields_of kvs in
           bind_err (parse_req parse_str (m ''nmos'')) (\<lambda>a.
           bind_err (parse_req parse_str (m ''pmos'')) (\<lambda>b.
           bind_err (parse_req parse_str (m ''temperature'')) (\<lambda>c.
           Inr \<lparr>nmos = a, pmos = b, temperature = c\<rparr>))))
      | _ \<Rightarrow> Inl ValidationError)"

definition parse_MinMaxCap :: "json \<Rightarrow> error + MinMaxCap" where
  "parse_MinMaxCap j =
     (case j of
        JObject kvs \<Rightarrow>
          (let m = fields_of kvs in
           bind_err (parse_req parse_str (m ''max_cap'')) (\<lambda>a.
           bind_err (parse_req parse_str (m ''min_cap'')) (\<lambda>b.
           Inr \<lparr>max_cap = a, min_cap = b\<rparr>)))
      | _ \<Rightarrow> Inl ValidationError)"

definition parse_Provide :: "json \<Rightarrow> error + Provide" where
  "parse_Provide j =
     (case j of
        JObject kvs \<Rightarrow>
          (let m = fields_of kvs in
           bind_err (parse_req parse_str (m ''lib_type'')) (\<lambda>a.
           bind_err (parse_opt parse_str (m ''vt'')) (\<lambda>b.
           Inr \<lparr>lib_type = a, vt = b\<rparr>)))
      | _ \<Rightarrow> Inl ValidationError)"

definition parse_Supplies :: "json \<Rightarrow> error + Supplies" where
  "parse_Supplies j =
     (case j of
        JObject kvs \<Rightarrow>
          (let m = fields_of kvs in
           bind_err (parse_req parse_str (m ''GND'')) (\<lambda>a.
           bind_err (parse_req parse_str (m ''VDD'')) (\<lambda>b.
           Inr \<lparr>GND = a, VDD = b\<rparr>)))
      | _ \<Rightarrow> Inl ValidationError)"

definition parse_SpiceModelFile :: "json \<Rightarrow> error + SpiceModelFile" where
  "parse_SpiceModelFile j =
     (case j of
        JObject kvs \<Rightarrow>
          (let m = fields_of kvs in
           bind_err (parse_req parse_str (m ''path'')) (\<lambda>a.
           bind_err (parse_req parse_str (m ''lib_corner'')) (\<lambda>b.
           Inr \<lparr>smf_path = a, lib_corner = b\<rparr>)))
      | _ \<Rightarrow> Inl ValidationError)"

definition parse_PathPrefix :: "json \<Rightarrow> error + PathPrefix" where
  "parse_PathPrefix j =
     (case j of
        JObject kvs \<Rightarrow>
          (let m = fields_of kvs in
           bind_err (parse_req parse_str (m ''id'')) (\<lambda>a.
           bind_err (parse_req parse_str (m ''path'')) (\<lambda>b.
           Inr \<lparr>pp_id = a, pp_path = b\<rparr>)))
      | _ \<Rightarrow> Inl ValidationError)"

definition parse_Library :: "json \<Rightarrow> error + Library" where
  "parse_Library j =
     (case j of
        JObject kvs \<Rightarrow>
          (let m = fields_of kvs in
       bind_err (parse_opt parse_str (m ''name'')) (\<lambda>v1.
       bind_err (parse_opt parse_str (m ''ccs_liberty_file'')) (\<lambda>v2.
       bind_err (parse_opt parse_str (m ''ccs_library_file'')) (\<lambda>v3.
       bind_err (parse_opt parse_str (m ''ecsm_liberty_file'')) (\<lambda>v4.
       bind_err (parse_opt parse_str (m ''ecsm_library_file'')) (\<lambda>v5.
       bind_err (parse_opt parse_Corner (m ''corner'')) (\<lambda>v6.
       bind_err (parse_opt parse_MinMaxCap (m ''itf_files'')) (\<lambda>v7.
       bind_err (parse_opt parse_str (m ''lef_file'')) (\<lambda>v8.
       bind_err (parse_opt parse_str (m ''klayout_techfile'')) (\<lambda>v9.
       bind_err (parse_opt parse_str (m ''spice_file'')) (\<lambda>v10.
       bind_err (parse_opt parse_str (m ''gds_file'')) (\<lambda>v11.
       bind_err (parse_opt parse_str (m ''milkyway_lib_in_dir'')) (\<lambda>v12.
       bind_err (parse_opt parse_str (m ''milkyway_techfile'')) (\<lambda>v13.
       bind_err (parse_opt parse_str (m ''nldm_liberty_file'')) (\<lambda>v14.
       bind_err (parse_opt parse_str (m ''nldm_library_file'')) (\<lambda>v15.
       bind_err (parse_opt parse_str (m ''openaccess_techfile'')) (\<lambda>v16.
       bind_err (parse_opt (parse_list parse_Provide) (m ''provides'')) (\<lambda>v17.
       bind_err (parse_opt parse_str (m ''qrc_techfile'')) (\<lambda>v18.
       bind_err (parse_opt parse_Supplies (m ''supplies'')) (\<lambda>v19.
       bind_err (parse_opt parse_MinMaxCap (m ''tluplus_files'')) (\<lambda>v20.
       bind_err (parse_opt parse_str (m ''tluplus_map_file'')) (\<lambda>v21.
       bind_err (parse_opt parse_str (m ''verilog_sim'')) (\<lambda>v22.
       bind_err (parse_opt parse_str (m ''verilog_synth'')) (\<lambda>v23.
       bind_err (parse_opt parse_SpiceModelFile (m ''spice_model_file'')) (\<lambda>v24.
       bind_err (parse_opt parse_str (m ''power_grid_library'')) (\<lambda>v25.
       bind_err (parse_opt (parse_list parse_PathPrefix) (m ''extra_prefixes'')) (\<lambda>v26.
       Inr \<lparr>name = v1, ccs_liberty_file = v2, ccs_library_file = v3, ecsm_liberty_file = v4,
            ecsm_library_file = v5, corner = v6, itf_files = v7, lef_file = v8,
            klayout_techfile = v9, spice_file = v10, gds_file = v11, milkyway_lib_in_dir =
            v12, milkyway_techfile = v13, nldm_liberty_file = v14, nldm_library_file = v15,
            openaccess_techfile = v16, provides = v17, qrc_techfile = v18, supplies = v19,
            tluplus_files = v20, tluplus_map_file = v21, verilog_sim = v22, verilog_synth =
            v23, spice_model_file = v24, power_grid_library = v25, extra_prefixes = v26\<rparr>)))))))))))))))))))))))))))
      | _ \<Rightarrow> Inl ValidationError)"

text \<open>
  Objects. \<^verbatim>\<open>store_into_library\<close> assigns to a field of the object that
  \<^verbatim>\<open>copy_library\<close> returned, so which object that is matters: library objects live in
  a store, a reference is an index, and a new object takes the next free index.
\<close>

record heap =
  objs :: "nat \<Rightarrow> Library"
  next_ref :: nat

definition alloc :: "heap \<Rightarrow> Library \<Rightarrow> nat \<times> heap" where
  "alloc h v = (next_ref h, h\<lparr>objs := (objs h)(next_ref h := v), next_ref := Suc (next_ref h)\<rparr>)"

definition copy_library :: "heap \<Rightarrow> nat \<Rightarrow> error + nat \<times> heap" where
  "copy_library h lib =
     (case parse_Library (Library_json (objs h lib)) of
        Inl e \<Rightarrow> Inl e
      | Inr v \<Rightarrow> Inr (alloc h v))"

record ExtraLibrary =
  prefix :: "PathPrefix option"
  library :: nat

definition store_into_library :: "heap \<Rightarrow> ExtraLibrary \<Rightarrow> error + nat \<times> heap" where
  "store_into_library h self =
     (case copy_library h (library self) of
        Inl e \<Rightarrow> Inl e
      | Inr (lib_copied, h1) \<Rightarrow>
          (let extra_prefixes_new = (case prefix self of None \<Rightarrow> [] | Some p \<Rightarrow> [] @ [p])
           in Inr (lib_copied,
                   h1\<lparr>objs := (objs h1)
                        (lib_copied := (objs h1 lib_copied)\<lparr>extra_prefixes := Some extra_prefixes_new\<rparr>)\<rparr>)))"

section \<open>Concrete inputs\<close>

text \<open>\<^verbatim>\<open>Library()\<close>: every field at its default.\<close>

definition empty_library :: Library where
  "empty_library = \<lparr>name = None, ccs_liberty_file = None, ccs_library_file = None,
     ecsm_liberty_file = None, ecsm_library_file = None, corner = None, itf_files = None,
     lef_file = None, klayout_techfile = None, spice_file = None, gds_file = None,
     milkyway_lib_in_dir = None, milkyway_techfile = None, nldm_liberty_file = None,
     nldm_library_file = None, openaccess_techfile = None, provides = None,
     qrc_techfile = None, supplies = None, tluplus_files = None, tluplus_map_file = None,
     verilog_sim = None, verilog_synth = None, spice_model_file = None,
     power_grid_library = None, extra_prefixes = None\<rparr>"

text \<open>A descriptor that declares nothing but its name.\<close>

definition empty_config :: TechJSON where
  "empty_config = \<lparr>json_name = ''demo'', grid_unit = None, shrink_factor = None,
     installs = None, libraries = None, gds_map_file = None, physical_only_cells_list = None,
     dont_use_list = None, drc_decks = None, lvs_decks = None, tarballs = None, sites = None,
     stackups = None, special_cells = None, tech_extra_prefixes = None,
     additional_lvs_text = None, additional_drc_text = None\<rparr>"

text \<open>A run at 0.7 V without multi-corner analysis.\<close>

definition demo_settings :: "string \<rightharpoonup> setting" where
  "demo_settings =
     [''vlsi.inputs.mmmc_corners'' \<mapsto> SList [],
      ''vlsi.inputs.supplies.VDD'' \<mapsto> SStr ''0.7'',
      ''vlsi.inputs.supplies.GND'' \<mapsto> SStr ''0'',
      ''demo.pdk'' \<mapsto> SStr ''/pdk'',
      ''demo.ip_a'' \<mapsto> SStr ''/ip_a'',
      ''demo.ip_b'' \<mapsto> SStr ''/ip_b'',
      ''demo.tarball_dir'' \<mapsto> SStr ''/dl'']"

definition demo_tech :: HammerTechnology where
  "demo_tech = \<lparr>tech_name = ''demo'', package = ''hammer.technology.demo'',
     config = empty_config, cachedir = Some ''/c'', logger = Some [],
     database = Some demo_settings\<rparr>"

text \<open>A technology-type library annotated for 0.8 V, and one without annotation.\<close>

definition tech_lib_08 :: Library where
  "tech_lib_08 = empty_library\<lparr>provides := Some [\<lparr>lib_type = ''technology'', vt = None\<rparr>],
     supplies := Some \<lparr>GND = ''0'', VDD = ''0.8''\<rparr>\<rparr>"

definition tech_lib_bare :: Library where
  "tech_lib_bare = empty_library\<lparr>provides := Some [\<lparr>lib_type = ''technology'', vt = None\<rparr>]\<rparr>"

text \<open>
  A machine on which the PDK is installed under \<^verbatim>\<open>/pdk\<close> and the two IP directories
  \<^verbatim>\<open>/ip_a\<close> and \<^verbatim>\<open>/ip_b\<close> are not.
\<close>

definition demo_os :: OS where
  "demo_os = \<lparr>os_files = {''/pdk/lvs.rul''}, os_dirs = {''/pdk'', ''/c'', ''/dl''},
     os_package_dir = (\<lambda>_. ''/site-packages/demo'')\<rparr>"

definition pdk_install :: PathPrefix where
  "pdk_install = \<lparr>pp_id = ''pdk'', pp_path = ''demo.pdk''\<rparr>"

definition ip_a_install :: PathPrefix where
  "ip_a_install = \<lparr>pp_id = ''ip_a'', pp_path = ''demo.ip_a''\<rparr>"

definition ip_b_install :: PathPrefix where
  "ip_b_install = \<lparr>pp_id = ''ip_b'', pp_path = ''demo.ip_b''\<rparr>"

definition installs_tech :: HammerTechnology where
  "installs_tech =
     demo_tech\<lparr>config := empty_config\<lparr>installs := Some [pdk_install, ip_a_install, ip_b_install]\<rparr>\<rparr>"






text \<open>
  A descriptor with one LVS deck and one DRC deck for the tool \<^verbatim>\<open>calibre\<close>, both kept in
  the cache directory; and one whose LVS deck names a prefix \<^verbatim>\<open>pdk\<close> that nothing
  declares.
\<close>

definition cache_lvs_deck :: LVSDeck where
  "cache_lvs_deck = \<lparr>lvs_tool_name = ''calibre'', lvs_deck_name = ''all_lvs'', lvs_path = ''cache/lvs.rul''\<rparr>"

definition cache_drc_deck :: DRCDeck where
  "cache_drc_deck = \<lparr>drc_tool_name = ''calibre'', drc_deck_name = ''all_drc'', drc_path = ''cache/drc.rul''\<rparr>"

definition deck_tech :: HammerTechnology where
  "deck_tech = demo_tech\<lparr>config := empty_config\<lparr>drc_decks := Some [cache_drc_deck],
     lvs_decks := Some [cache_lvs_deck]\<rparr>\<rparr>"

definition pdk_lvs_deck :: LVSDeck where
  "pdk_lvs_deck = \<lparr>lvs_tool_name = ''calibre'', lvs_deck_name = ''all_lvs'', lvs_path = ''pdk/lvs.rul''\<rparr>"

definition unresolved_deck_tech :: HammerTechnology where
  "unresolved_deck_tech = demo_tech\<lparr>config := empty_config\<lparr>lvs_decks := Some [pdk_lvs_deck]\<rparr>\<rparr>"

text \<open>A descriptor whose only LVS deck is given by an absolute path.\<close>

definition abs_lvs_deck :: LVSDeck where
  "abs_lvs_deck = \<lparr>lvs_tool_name = ''calibre'', lvs_deck_name = ''all_lvs'', lvs_path = ''/pdk/lvs.rul''\<rparr>"

definition abs_drc_deck :: DRCDeck where
  "abs_drc_deck = \<lparr>drc_tool_name = ''calibre'', drc_deck_name = ''all_drc'', drc_path = ''/pdk/drc.rul''\<rparr>"

definition abs_deck_tech :: HammerTechnology where
  "abs_deck_tech = demo_tech\<lparr>config := empty_config\<lparr>drc_decks := Some [abs_drc_deck],
     lvs_decks := Some [abs_lvs_deck]\<rparr>\<rparr>"

text \<open>
  A descriptor in which the identifier \<^verbatim>\<open>pdk\<close> names both an install and an archive,
  and one with an install \<^verbatim>\<open>ip_c\<close> whose settings key nobody has configured.
\<close>

definition pdk_named_tarball :: Tarball where
  "pdk_named_tarball = \<lparr>root = \<lparr>pp_id = ''pdk'', pp_path = ''demo.tarball_dir''\<rparr>,
     homepage = ''https://example.org/pdk'', optional = False\<rparr>"

definition clash_tech :: HammerTechnology where
  "clash_tech = demo_tech\<lparr>config := empty_config\<lparr>installs := Some [pdk_install],
     tarballs := Some [pdk_named_tarball]\<rparr>\<rparr>"

definition ip_c_install :: PathPrefix where
  "ip_c_install = \<lparr>pp_id = ''ip_c'', pp_path = ''demo.ip_c''\<rparr>"

definition unset_key_tech :: HammerTechnology where
  "unset_key_tech = demo_tech\<lparr>config := empty_config\<lparr>installs := Some [ip_c_install]\<rparr>\<rparr>"

text \<open>
  A store holding one library, which carries a prefix of its own, and an extra library
  that refers to it and declares another prefix.
\<close>

definition own_prefix :: PathPrefix where
  "own_prefix = \<lparr>pp_id = ''own'', pp_path = ''/own''\<rparr>"

definition declared_prefix :: PathPrefix where
  "declared_prefix = \<lparr>pp_id = ''ip'', pp_path = ''/ip''\<rparr>"

definition stored_library :: Library where
  "stored_library = empty_library\<lparr>name := Some ''sram'', nldm_liberty_file := Some ''ip/sram.lib'',
     supplies := Some \<lparr>GND = ''0'', VDD = ''0.7''\<rparr>, extra_prefixes := Some [own_prefix]\<rparr>"

definition demo_heap :: heap where
  "demo_heap = \<lparr>objs = (\<lambda>_. empty_library)(0 := stored_library), next_ref = 1\<rparr>"

definition demo_extra_library :: ExtraLibrary where
  "demo_extra_library = \<lparr>prefix = Some declared_prefix, library = 0\<rparr>"

text \<open>Three libraries that each name one NLDM liberty file by an absolute path.\<close>

definition lib_a :: Library where
  "lib_a = empty_library\<lparr>nldm_liberty_file := Some ''/a.lib''\<rparr>"

definition lib_b :: Library where
  "lib_b = empty_library\<lparr>nldm_liberty_file := Some ''/b.lib''\<rparr>"

definition lib_c :: Library where
  "lib_c = empty_library\<lparr>nldm_liberty_file := Some ''/c.lib''\<rparr>"

text \<open>
  A library with both a CCS and an NLDM view of each kind, one with an NLDM \<^verbatim>\<open>.db\<close>
  only, and a technology whose middle library declares no timing view at all.
\<close>

definition ccs_nldm_lib :: Library where
  "ccs_nldm_lib = empty_library\<lparr>ccs_liberty_file := Some ''/ccs.lib'',
     ccs_library_file := Some ''/ccs.db'', nldm_liberty_file := Some ''/nldm.lib'',
     nldm_library_file := Some ''/nldm.db''\<rparr>"

definition nldm_db_lib :: Library where
  "nldm_db_lib = empty_library\<lparr>nldm_library_file := Some ''/nldm.db''\<rparr>"

definition timing_tech :: HammerTechnology where
  "timing_tech = demo_tech\<lparr>config := empty_config\<lparr>libraries := Some ([lib_a] @ empty_library # [lib_b])\<rparr>\<rparr>"

section \<open>Properties\<close>

lemma get_setting_demo:
  "get_setting demo_tech ''vlsi.inputs.mmmc_corners'' = Inr (SList [])"
  "get_setting demo_tech ''vlsi.inputs.supplies.VDD'' = Inr (SStr ''0.7'')"
  "get_setting demo_tech ''vlsi.inputs.supplies.GND'' = Inr (SStr ''0'')"
  by (simp_all add: get_setting_def demo_tech_def demo_settings_def)

subsection \<open>The supply pre-filter\<close>

text \<open>
  C1, as stated, fails: a library marked as technology-type that carries a supplies
  annotation is matched against the configured supplies like any other. Here a
  technology library annotated for 0.8 V is rejected by a run configured for 0.7 V.
\<close>

theorem filter_for_supplies_technology_counterexample:
  "provides_technology tech_lib_08 \<and> fst (filter_for_supplies demo_tech tech_lib_08) = Inr False"
  by (simp add: provides_technology_def tech_lib_08_def empty_library_def
      filter_for_supplies_def get_setting_demo setting_eq_str_def)

text \<open>
  C1, amended: with multi-corner mode off, every library with a supplies annotation,
  technology-type or not, is accepted if and only if its VDD and GND equal the configured
  supply settings; the technology mark decides only for a library without supplies
  annotation, which it lets through without the warning. Neither call changes the
  technology object.
\<close>

theorem filter_for_supplies_by_annotation:
  assumes "get_setting t ''vlsi.inputs.mmmc_corners'' = Inr mmmc" and "\<not> truthy mmmc"
    and "get_setting t ''vlsi.inputs.supplies.VDD'' = Inr vdd"
    and "get_setting t ''vlsi.inputs.supplies.GND'' = Inr gnd"
  shows "(supplies lib = Some s \<longrightarrow>
           filter_for_supplies t lib = (Inr (vdd = SStr (VDD s) \<and> gnd = SStr (GND s)), t))
       \<and> (supplies lib = None \<and> provides_technology lib \<longrightarrow>
           filter_for_supplies t lib = (Inr True, t))"
  using assms by (simp add: filter_for_supplies_def setting_eq_str_def)

theorem filter_for_supplies_by_annotation_witness:
  "filter_for_supplies demo_tech tech_lib_08 = (Inr False, demo_tech)
   \<and> filter_for_supplies demo_tech tech_lib_bare = (Inr True, demo_tech)"
proof -
  have m: "\<not> truthy (SList [])" by simp
  have s: "supplies tech_lib_08 = Some \<lparr>GND = ''0'', VDD = ''0.8''\<rparr>"
    by (simp add: tech_lib_08_def)
  have b: "supplies tech_lib_bare = None \<and> provides_technology tech_lib_bare"
    by (simp add: tech_lib_bare_def empty_library_def provides_technology_def)
  from filter_for_supplies_by_annotation [OF get_setting_demo(1) m get_setting_demo(2,3),
      of tech_lib_08 "\<lparr>GND = ''0'', VDD = ''0.8''\<rparr>"] s
  have 1: "filter_for_supplies demo_tech tech_lib_08 = (Inr False, demo_tech)" by simp
  from filter_for_supplies_by_annotation [OF get_setting_demo(1) m get_setting_demo(2,3),
      of tech_lib_bare] b
  have 2: "filter_for_supplies demo_tech tech_lib_bare = (Inr True, demo_tech)" by simp
  from 1 2 show ?thesis by simp
qed

subsection \<open>Installs\<close>

lemma check_installs_loop_skip:
  "\<forall>i\<in>set pre. \<exists>p. resolve_install t i = Inr p \<and> path_exists os p \<Longrightarrow>
   check_installs_loop os t (pre @ rest) = check_installs_loop os t rest"
  by (induction pre) auto

lemma check_installs_loop_total:
  "database t = Some db \<Longrightarrow> logger t = Some ms \<Longrightarrow>
   \<exists>b t'. check_installs_loop os t ins = (Inr b, t')"
  by (induction ins) (auto simp: resolve_install_def get_setting_def log_msg_def split: option.splits)

lemma resolve_install_demo:
  "resolve_install installs_tech pdk_install = Inr ''/pdk''"
  "resolve_install installs_tech ip_a_install = Inr ''/ip_a''"
  "resolve_install installs_tech ip_b_install = Inr ''/ip_b''"
  by (simp_all add: resolve_install_def get_setting_def installs_tech_def demo_tech_def
      demo_settings_def pdk_install_def ip_a_install_def ip_b_install_def)

lemma path_exists_demo:
  "path_exists demo_os ''/pdk''" "\<not> path_exists demo_os ''/ip_a''" "\<not> path_exists demo_os ''/ip_b''"
  by (simp_all add: path_exists_def isfile_def isdir_def demo_os_def)

lemma ip_a_key: "pp_path ip_a_install = ''demo.ip_a''"
  by (simp add: ip_a_install_def)

lemma installs_tech_fields:
  "installs (config installs_tech) = Some [pdk_install, ip_a_install, ip_b_install]"
  "logger installs_tech = Some []"
  "database installs_tech = Some demo_settings"
  by (simp_all add: installs_tech_def demo_tech_def)

text \<open>
  C4, as stated, fails: the installs are not each checked and reported. The loop returns
  at the first install whose path is missing; here \<^verbatim>\<open>/ip_a\<close> and \<^verbatim>\<open>/ip_b\<close> are both
  missing and only the first reaches the logger.
\<close>

theorem check_installs_report_counterexample:
  "resolve_install installs_tech ip_b_install = Inr ''/ip_b'' \<and> \<not> path_exists demo_os ''/ip_b''
   \<and> check_installs demo_os installs_tech =
       (Inr False, installs_tech\<lparr>logger := Some [Error_install_path ''/ip_a'' ''demo.ip_a'']\<rparr>)"
  by (simp add: resolve_install_demo path_exists_demo check_installs_def log_msg_def
      installs_tech_fields ip_a_key)

text \<open>
  C4, amended: \<^verbatim>\<open>check_installs\<close> resolves the \<^verbatim>\<open>path\<close> of each install through the
  settings database and tests that the resulting path exists, in declared order up to the
  first one that does not. When all exist (and there is at least one) it returns true and
  logs nothing. At the first missing path it logs that one path with its key and returns
  false, whatever installs follow. With no install it returns false. With a settings
  database and a logger in place it never raises.
\<close>

theorem check_installs_first_missing:
  assumes "logger t = Some ms" and "installs (config t) = Some ins"
  shows "(ins \<noteq> [] \<and> (\<forall>i\<in>set ins. \<exists>p. resolve_install t i = Inr p \<and> path_exists os p) \<longrightarrow>
            check_installs os t = (Inr True, t))
       \<and> (ins = pre @ bad # post
            \<and> (\<forall>i\<in>set pre. \<exists>p. resolve_install t i = Inr p \<and> path_exists os p)
            \<and> resolve_install t bad = Inr q \<and> \<not> path_exists os q \<longrightarrow>
            check_installs os t =
              (Inr False, t\<lparr>logger := Some (ms @ [Error_install_path q (pp_path bad)])\<rparr>))
       \<and> (ins = [] \<longrightarrow> check_installs os t = (Inr False, t))
       \<and> (database t \<noteq> None \<longrightarrow> (\<exists>b t'. check_installs os t = (Inr b, t')))"
proof (intro conjI impI)
  assume a: "ins \<noteq> [] \<and> (\<forall>i\<in>set ins. \<exists>p. resolve_install t i = Inr p \<and> path_exists os p)"
  then have "check_installs_loop os t (ins @ []) = check_installs_loop os t []"
    by (intro check_installs_loop_skip) simp
  with a assms show "check_installs os t = (Inr True, t)"
    by (simp add: check_installs_def)
next
  assume a: "ins = pre @ bad # post
      \<and> (\<forall>i\<in>set pre. \<exists>p. resolve_install t i = Inr p \<and> path_exists os p)
      \<and> resolve_install t bad = Inr q \<and> \<not> path_exists os q"
  then have "check_installs_loop os t (pre @ bad # post) = check_installs_loop os t (bad # post)"
    by (intro check_installs_loop_skip) simp
  with a assms show "check_installs os t =
      (Inr False, t\<lparr>logger := Some (ms @ [Error_install_path q (pp_path bad)])\<rparr>)"
    by (simp add: check_installs_def log_msg_def)
next
  assume "ins = []"
  with assms show "check_installs os t = (Inr False, t)"
    by (simp add: check_installs_def)
next
  assume "database t \<noteq> None"
  then obtain db where "database t = Some db" by auto
  from check_installs_loop_total [OF this assms(1)] assms
  show "\<exists>b t'. check_installs os t = (Inr b, t')"
    by (auto simp: check_installs_def)
qed


theorem check_installs_first_missing_witness:
  "check_installs demo_os installs_tech =
     (Inr False, installs_tech\<lparr>logger := Some [Error_install_path ''/ip_a'' ''demo.ip_a'']\<rparr>)
   \<and> check_installs demo_os (installs_tech\<lparr>config := empty_config\<lparr>installs := Some [pdk_install]\<rparr>\<rparr>) =
     (Inr True, installs_tech\<lparr>config := empty_config\<lparr>installs := Some [pdk_install]\<rparr>\<rparr>)"
proof -
  let ?t1 = "installs_tech\<lparr>config := empty_config\<lparr>installs := Some [pdk_install]\<rparr>\<rparr>"
  have r1: "resolve_install ?t1 pdk_install = Inr ''/pdk''"
    by (simp add: resolve_install_def get_setting_def installs_tech_def demo_tech_def
        demo_settings_def pdk_install_def)
  have f1: "logger ?t1 = Some []" "installs (config ?t1) = Some [pdk_install]"
    by (simp_all add: installs_tech_fields)
  have a: "[pdk_install, ip_a_install, ip_b_install] = [pdk_install] @ ip_a_install # [ip_b_install]
      \<and> (\<forall>i\<in>set [pdk_install]. \<exists>p. resolve_install installs_tech i = Inr p \<and> path_exists demo_os p)
      \<and> resolve_install installs_tech ip_a_install = Inr ''/ip_a'' \<and> \<not> path_exists demo_os ''/ip_a''"
    by (simp add: resolve_install_demo path_exists_demo)
  have b: "[pdk_install] \<noteq> []
      \<and> (\<forall>i\<in>set [pdk_install]. \<exists>p. resolve_install ?t1 i = Inr p \<and> path_exists demo_os p)"
    by (simp add: r1 path_exists_demo)
  have 1: "check_installs demo_os installs_tech =
     (Inr False, installs_tech\<lparr>logger := Some ([] @ [Error_install_path ''/ip_a'' (pp_path ip_a_install)])\<rparr>)"
    by (rule check_installs_first_missing [OF installs_tech_fields(2,1), of demo_os "[pdk_install]"
      ip_a_install "[ip_b_install]" "''/ip_a''", THEN conjunct2, THEN conjunct1, THEN mp, OF a])
  have 2: "check_installs demo_os ?t1 = (Inr True, ?t1)"
    by (rule check_installs_first_missing [OF f1, of demo_os, THEN conjunct1, THEN mp, OF b])
  from 1 2 show ?thesis by (simp add: ip_a_key)
qed

subsection \<open>Archives\<close>










subsection \<open>Deck accessors\<close>

lemma prepend_dir_path_isabs: "isabs path \<Longrightarrow> prepend_dir_path os t path lib = Inr path"
  by (auto simp: prepend_dir_path_def isabs_def)

lemma resolve_lvs_decks_frame:
  "resolve_lvs_decks os t ds = (r, ds') \<Longrightarrow>
   list_all2 (\<lambda>d d'. d' = d \<or> (\<exists>p. prepend_dir_path os t (lvs_path d) None = Inr p
                                  \<and> d' = d\<lparr>lvs_path := p\<rparr>)) ds ds'"
proof (induction ds arbitrary: r ds')
  case Nil
  then show ?case by simp
next
  case (Cons d ds)
  show ?case
  proof (cases "prepend_dir_path os t (lvs_path d) None")
    case (Inl e)
    with Cons.prems have "ds' = d # ds" by simp
    then show ?thesis by (simp add: list_all2_same)
  next
    case (Inr p)
    obtain r1 ds1 where rec: "resolve_lvs_decks os t ds = (r1, ds1)"
      by (cases "resolve_lvs_decks os t ds")
    with Inr Cons.prems have "ds' = d\<lparr>lvs_path := p\<rparr> # ds1" by simp
    with Cons.IH [OF rec] Inr show ?thesis by simp
  qed
qed

lemma resolve_lvs_decks_isabs:
  "\<forall>d\<in>set ds. isabs (lvs_path d) \<Longrightarrow> resolve_lvs_decks os t ds = (None, ds)"
  by (induction ds) (simp_all add: prepend_dir_path_isabs)

lemma resolve_drc_decks_frame:
  "resolve_drc_decks os t ds = (r, ds') \<Longrightarrow>
   list_all2 (\<lambda>d d'. d' = d \<or> (\<exists>p. prepend_dir_path os t (drc_path d) None = Inr p
                                  \<and> d' = d\<lparr>drc_path := p\<rparr>)) ds ds'"
proof (induction ds arbitrary: r ds')
  case Nil
  then show ?case by simp
next
  case (Cons d ds)
  show ?case
  proof (cases "prepend_dir_path os t (drc_path d) None")
    case (Inl e)
    with Cons.prems have "ds' = d # ds" by simp
    then show ?thesis by (simp add: list_all2_same)
  next
    case (Inr p)
    obtain r1 ds1 where rec: "resolve_drc_decks os t ds = (r1, ds1)"
      by (cases "resolve_drc_decks os t ds")
    with Inr Cons.prems have "ds' = d\<lparr>drc_path := p\<rparr> # ds1" by simp
    with Cons.IH [OF rec] Inr show ?thesis by simp
  qed
qed

lemma resolve_drc_decks_isabs:
  "\<forall>d\<in>set ds. isabs (drc_path d) \<Longrightarrow> resolve_drc_decks os t ds = (None, ds)"
  by (induction ds) (simp_all add: prepend_dir_path_isabs)

lemma get_lvs_decks_frame:
  "lvs_decks (config t) = Some ds \<Longrightarrow>
   \<exists>ds'. snd (get_lvs_decks_for_tool os t tool) = t\<lparr>config := (config t)\<lparr>lvs_decks := Some ds'\<rparr>\<rparr>
     \<and> list_all2 (\<lambda>d d'. d' = d \<or> (\<exists>p. prepend_dir_path os t (lvs_path d) None = Inr p
                                  \<and> d' = d\<lparr>lvs_path := p\<rparr>)) ds ds'"
proof -
  assume a: "lvs_decks (config t) = Some ds"
  obtain r ds' where rec: "resolve_lvs_decks os t ds = (r, ds')"
    by (cases "resolve_lvs_decks os t ds")
  from a rec have "snd (get_lvs_decks_for_tool os t tool) = t\<lparr>config := (config t)\<lparr>lvs_decks := Some ds'\<rparr>\<rparr>"
    by (simp add: get_lvs_decks_for_tool_def Let_def split: option.splits)
  with resolve_lvs_decks_frame [OF rec] show ?thesis by blast
qed

lemma get_drc_decks_frame:
  "drc_decks (config t) = Some ds \<Longrightarrow>
   \<exists>ds'. snd (get_drc_decks_for_tool os t tool) = t\<lparr>config := (config t)\<lparr>drc_decks := Some ds'\<rparr>\<rparr>
     \<and> list_all2 (\<lambda>d d'. d' = d \<or> (\<exists>p. prepend_dir_path os t (drc_path d) None = Inr p
                                  \<and> d' = d\<lparr>drc_path := p\<rparr>)) ds ds'"
proof -
  assume a: "drc_decks (config t) = Some ds"
  obtain r ds' where rec: "resolve_drc_decks os t ds = (r, ds')"
    by (cases "resolve_drc_decks os t ds")
  from a rec have "snd (get_drc_decks_for_tool os t tool) = t\<lparr>config := (config t)\<lparr>drc_decks := Some ds'\<rparr>\<rparr>"
    by (simp add: get_drc_decks_for_tool_def Let_def split: option.splits)
  with resolve_drc_decks_frame [OF rec] show ?thesis by blast
qed

lemma get_lvs_decks_isabs:
  "lvs_decks (config t) = Some ds \<Longrightarrow> \<forall>d\<in>set ds. isabs (lvs_path d) \<Longrightarrow>
   snd (get_lvs_decks_for_tool os t tool) = t"
  by (simp add: get_lvs_decks_for_tool_def resolve_lvs_decks_isabs)

lemma get_drc_decks_isabs:
  "drc_decks (config t) = Some ds \<Longrightarrow> \<forall>d\<in>set ds. isabs (drc_path d) \<Longrightarrow>
   snd (get_drc_decks_for_tool os t tool) = t"
  by (simp add: get_drc_decks_for_tool_def resolve_drc_decks_isabs)

lemma filter_for_supplies_config: "config (snd (filter_for_supplies t lib)) = config t"
  by (auto simp: filter_for_supplies_def log_msg_def split: sum.splits option.splits)

lemma passes_config:
  "\<forall>f\<in>set fs. \<forall>t lib. config (snd (f t lib)) = config t \<Longrightarrow> config (snd (passes fs t lib)) = config t"
proof (induction fs arbitrary: t)
  case Nil
  then show ?case by simp
next
  case (Cons f fs)
  obtain r t1 where f: "f t lib = (r, t1)" by (cases "f t lib")
  from Cons.prems have "config (snd (f t lib)) = config t" by simp
  with f have c: "config t1 = config t" by simp
  from Cons.prems have "config (snd (passes fs t1 lib)) = config t1"
    by (intro Cons.IH) simp
  with f c show ?case by (cases r) auto
qed

lemma select_libs_config:
  "\<forall>f\<in>set fs. \<forall>t lib. config (snd (f t lib)) = config t \<Longrightarrow>
   config (snd (select_libs fs libs t)) = config t"
proof (induction libs arbitrary: t)
  case Nil
  then show ?case by simp
next
  case (Cons lib libs)
  obtain r t1 where p: "passes fs t lib = (r, t1)" by (cases "passes fs t lib")
  from passes_config [OF Cons.prems, of t lib] p have c: "config t1 = config t" by simp
  obtain r2 t2 where s: "select_libs fs libs t1 = (r2, t2)" by (cases "select_libs fs libs t1")
  from Cons.IH [OF Cons.prems, of t1] s c have "config t2 = config t" by simp
  with p s c show ?case by (cases r; cases r2) auto
qed

lemma process_library_filter_config:
  "config (snd (process_library_filter os t extra filt default_pre_filters output_func must_exist uniquify))
     = config t"
proof -
  let ?fs = "default_pre_filters
     @ get_or_else (optional_map (filter_func filt) (\<lambda>x. [lift_filter_func x])) []"
  have "\<forall>f\<in>set ?fs. \<forall>t lib. config (snd (f t lib)) = config t"
    by (auto simp: default_pre_filters_def get_or_else_def optional_map_def lift_filter_func_def
        filter_for_supplies_config split: option.splits)
  from select_libs_config [OF this, of "get_available_libraries t extra" t]
  show ?thesis
    by (auto simp: process_library_filter_def Let_def split: prod.splits sum.splits)
qed


lemma cache_deck_paths_demo:
  "prepend_dir_path demo_os deck_tech ''cache/lvs.rul'' None = Inr ''/c/lvs.rul''"
  "prepend_dir_path demo_os deck_tech ''cache/drc.rul'' None = Inr ''/c/drc.rul''"
  by (simp_all add: prepend_dir_path_def isabs_def sep_def cache_dir_def path_join_def join2_def
      deck_tech_def demo_tech_def)

lemma deck_tech_fields:
  "lvs_decks (config deck_tech) = Some [cache_lvs_deck]"
  "drc_decks (config deck_tech) = Some [cache_drc_deck]"
  "lvs_decks (config abs_deck_tech) = Some [abs_lvs_deck]"
  "drc_decks (config abs_deck_tech) = Some [abs_drc_deck]"
  "lvs_decks (config demo_tech) = None"
  "drc_decks (config demo_tech) = None"
  by (simp_all add: deck_tech_def abs_deck_tech_def demo_tech_def empty_config_def)

text \<open>
  C3, as stated, fails: the deck accessors write into the descriptor. After one call of
  \<^verbatim>\<open>get_lvs_decks_for_tool\<close> the LVS deck of the descriptor no longer holds the path
  \<^verbatim>\<open>cache/lvs.rul\<close> it was loaded with but the resolved \<^verbatim>\<open>/c/lvs.rul\<close>.
\<close>

theorem get_lvs_decks_for_tool_mutates_counterexample:
  "lvs_decks (config deck_tech) = Some [cache_lvs_deck]
   \<and> lvs_decks (config (snd (get_lvs_decks_for_tool demo_os deck_tech ''calibre'')))
       = Some [cache_lvs_deck\<lparr>lvs_path := ''/c/lvs.rul''\<rparr>]
   \<and> cache_lvs_deck\<lparr>lvs_path := ''/c/lvs.rul''\<rparr> \<noteq> cache_lvs_deck"
proof -
  have "lvs_path cache_lvs_deck = ''cache/lvs.rul''" by (simp add: cache_lvs_deck_def)
  then have "resolve_lvs_decks demo_os deck_tech [cache_lvs_deck]
      = (None, [cache_lvs_deck\<lparr>lvs_path := ''/c/lvs.rul''\<rparr>])"
    by (simp add: cache_deck_paths_demo)
  then have "lvs_decks (config (snd (get_lvs_decks_for_tool demo_os deck_tech ''calibre'')))
       = Some [cache_lvs_deck\<lparr>lvs_path := ''/c/lvs.rul''\<rparr>]"
    by (simp add: get_lvs_decks_for_tool_def deck_tech_fields)
  moreover have "cache_lvs_deck\<lparr>lvs_path := ''/c/lvs.rul''\<rparr> \<noteq> cache_lvs_deck"
    by (simp add: cache_lvs_deck_def)
  ultimately show ?thesis by (simp add: deck_tech_fields)
qed

text \<open>
  C3, amended: \<^verbatim>\<open>get_lvs_decks_for_tool\<close> and \<^verbatim>\<open>get_drc_decks_for_tool\<close> change
  nothing of the technology object but the deck list they read, and in that list nothing
  but deck paths: each deck is either as it was or has its path replaced by the resolved
  path. When the deck list is absent, or every deck path is absolute, the descriptor is
  left unchanged. Filter execution under the default pre-filter leaves the descriptor
  unchanged; path resolution has no access to it other than reading.
\<close>

theorem deck_accessors_frame:
  "(lvs_decks (config t) = None \<longrightarrow> snd (get_lvs_decks_for_tool os t tool) = t)
   \<and> (lvs_decks (config t) = Some ds \<longrightarrow>
        (\<exists>ds'. snd (get_lvs_decks_for_tool os t tool) = t\<lparr>config := (config t)\<lparr>lvs_decks := Some ds'\<rparr>\<rparr>
           \<and> list_all2 (\<lambda>d d'. d' = d \<or> (\<exists>p. prepend_dir_path os t (lvs_path d) None = Inr p
                                            \<and> d' = d\<lparr>lvs_path := p\<rparr>)) ds ds'))
   \<and> (lvs_decks (config t) = Some ds \<and> (\<forall>d\<in>set ds. isabs (lvs_path d)) \<longrightarrow>
        snd (get_lvs_decks_for_tool os t tool) = t)
   \<and> (drc_decks (config t) = None \<longrightarrow> snd (get_drc_decks_for_tool os t tool) = t)
   \<and> (drc_decks (config t) = Some dds \<longrightarrow>
        (\<exists>ds'. snd (get_drc_decks_for_tool os t tool) = t\<lparr>config := (config t)\<lparr>drc_decks := Some ds'\<rparr>\<rparr>
           \<and> list_all2 (\<lambda>d d'. d' = d \<or> (\<exists>p. prepend_dir_path os t (drc_path d) None = Inr p
                                            \<and> d' = d\<lparr>drc_path := p\<rparr>)) dds ds'))
   \<and> (drc_decks (config t) = Some dds \<and> (\<forall>d\<in>set dds. isabs (drc_path d)) \<longrightarrow>
        snd (get_drc_decks_for_tool os t tool) = t)
   \<and> config (snd (process_library_filter os t extra filt default_pre_filters
                     output_func must_exist uniquify)) = config t"
proof (intro conjI impI)
  assume "lvs_decks (config t) = None"
  then show "snd (get_lvs_decks_for_tool os t tool) = t"
    by (simp add: get_lvs_decks_for_tool_def)
next
  assume "lvs_decks (config t) = Some ds"
  then show "\<exists>ds'. snd (get_lvs_decks_for_tool os t tool) = t\<lparr>config := (config t)\<lparr>lvs_decks := Some ds'\<rparr>\<rparr>
           \<and> list_all2 (\<lambda>d d'. d' = d \<or> (\<exists>p. prepend_dir_path os t (lvs_path d) None = Inr p
                                            \<and> d' = d\<lparr>lvs_path := p\<rparr>)) ds ds'"
    by (rule get_lvs_decks_frame)
next
  assume "lvs_decks (config t) = Some ds \<and> (\<forall>d\<in>set ds. isabs (lvs_path d))"
  then show "snd (get_lvs_decks_for_tool os t tool) = t"
    by (simp add: get_lvs_decks_isabs)
next
  assume "drc_decks (config t) = None"
  then show "snd (get_drc_decks_for_tool os t tool) = t"
    by (simp add: get_drc_decks_for_tool_def)
next
  assume "drc_decks (config t) = Some dds"
  then show "\<exists>ds'. snd (get_drc_decks_for_tool os t tool) = t\<lparr>config := (config t)\<lparr>drc_decks := Some ds'\<rparr>\<rparr>
           \<and> list_all2 (\<lambda>d d'. d' = d \<or> (\<exists>p. prepend_dir_path os t (drc_path d) None = Inr p
                                            \<and> d' = d\<lparr>drc_path := p\<rparr>)) dds ds'"
    by (rule get_drc_decks_frame)
next
  assume "drc_decks (config t) = Some dds \<and> (\<forall>d\<in>set dds. isabs (drc_path d))"
  then show "snd (get_drc_decks_for_tool os t tool) = t"
    by (simp add: get_drc_decks_isabs)
next
  show "config (snd (process_library_filter os t extra filt default_pre_filters
                     output_func must_exist uniquify)) = config t"
    by (rule process_library_filter_config)
qed

theorem deck_accessors_frame_witness:
  "snd (get_lvs_decks_for_tool demo_os demo_tech ''calibre'') = demo_tech
   \<and> snd (get_drc_decks_for_tool demo_os demo_tech ''calibre'') = demo_tech
   \<and> snd (get_lvs_decks_for_tool demo_os abs_deck_tech ''calibre'') = abs_deck_tech
   \<and> snd (get_drc_decks_for_tool demo_os abs_deck_tech ''calibre'') = abs_deck_tech
   \<and> drc_decks (config (snd (get_lvs_decks_for_tool demo_os deck_tech ''calibre''))) = Some [cache_drc_deck]
   \<and> lvs_decks (config (snd (get_drc_decks_for_tool demo_os deck_tech ''calibre''))) = Some [cache_lvs_deck]"
proof -
  note th = deck_accessors_frame
  have 1: "snd (get_lvs_decks_for_tool demo_os demo_tech ''calibre'') = demo_tech"
    by (rule th [THEN conjunct1, THEN mp, OF deck_tech_fields(5)])
  have 2: "snd (get_drc_decks_for_tool demo_os demo_tech ''calibre'') = demo_tech"
    by (rule th [THEN conjunct2, THEN conjunct2, THEN conjunct2, THEN conjunct1, THEN mp,
        OF deck_tech_fields(6)])
  have a: "lvs_decks (config abs_deck_tech) = Some [abs_lvs_deck]
      \<and> (\<forall>d\<in>set [abs_lvs_deck]. isabs (lvs_path d))"
    by (simp add: deck_tech_fields abs_lvs_deck_def isabs_def sep_def)
  have 3: "snd (get_lvs_decks_for_tool demo_os abs_deck_tech ''calibre'') = abs_deck_tech"
    by (rule th [THEN conjunct2, THEN conjunct2, THEN conjunct1, THEN mp, OF a])
  have b: "drc_decks (config abs_deck_tech) = Some [abs_drc_deck]
      \<and> (\<forall>d\<in>set [abs_drc_deck]. isabs (drc_path d))"
    by (simp add: deck_tech_fields abs_drc_deck_def isabs_def sep_def)
  have 4: "snd (get_drc_decks_for_tool demo_os abs_deck_tech ''calibre'') = abs_deck_tech"
    by (rule th [THEN conjunct2, THEN conjunct2, THEN conjunct2, THEN conjunct2, THEN conjunct2,
        THEN conjunct1, THEN mp, OF b])
  from th [where t = deck_tech and ds = "[cache_lvs_deck]" and os = demo_os and tool = "''calibre''", THEN conjunct2, THEN conjunct1,
      THEN mp, OF deck_tech_fields(1)]
  obtain ds' where "snd (get_lvs_decks_for_tool demo_os deck_tech ''calibre'')
      = deck_tech\<lparr>config := (config deck_tech)\<lparr>lvs_decks := Some ds'\<rparr>\<rparr>" by blast
  then have 5: "drc_decks (config (snd (get_lvs_decks_for_tool demo_os deck_tech ''calibre'')))
      = Some [cache_drc_deck]"
    by (simp add: deck_tech_fields)
  from th [where t = deck_tech and dds = "[cache_drc_deck]" and os = demo_os and tool = "''calibre''", THEN conjunct2, THEN conjunct2,
      THEN conjunct2, THEN conjunct2, THEN conjunct1, THEN mp, OF deck_tech_fields(2)]
  obtain ds' where "snd (get_drc_decks_for_tool demo_os deck_tech ''calibre'')
      = deck_tech\<lparr>config := (config deck_tech)\<lparr>drc_decks := Some ds'\<rparr>\<rparr>" by blast
  then have 6: "lvs_decks (config (snd (get_drc_decks_for_tool demo_os deck_tech ''calibre'')))
      = Some [cache_lvs_deck]"
    by (simp add: deck_tech_fields)
  from 1 2 3 4 5 6 show ?thesis by simp
qed

subsection \<open>What the deck accessors return\<close>

lemma resolve_lvs_decks_ok:
  "map_err (\<lambda>d. prepend_dir_path os t (lvs_path d) None) ds = Inr ps \<Longrightarrow>
   resolve_lvs_decks os t ds = (None, map2 (\<lambda>d p. d\<lparr>lvs_path := p\<rparr>) ds ps)"
  by (induction ds arbitrary: ps) (auto split: sum.splits)

lemma resolve_lvs_decks_fail:
  "map_err (\<lambda>d. prepend_dir_path os t (lvs_path d) None) ds = Inl e \<Longrightarrow>
   fst (resolve_lvs_decks os t ds) = Some e"
  by (induction ds) (auto split: sum.splits prod.splits)

lemma resolve_drc_decks_ok:
  "map_err (\<lambda>d. prepend_dir_path os t (drc_path d) None) ds = Inr ps \<Longrightarrow>
   resolve_drc_decks os t ds = (None, map2 (\<lambda>d p. d\<lparr>drc_path := p\<rparr>) ds ps)"
  by (induction ds arbitrary: ps) (auto split: sum.splits)

lemma resolve_drc_decks_fail:
  "map_err (\<lambda>d. prepend_dir_path os t (drc_path d) None) ds = Inl e \<Longrightarrow>
   fst (resolve_drc_decks os t ds) = Some e"
  by (induction ds) (auto split: sum.splits prod.splits)

lemma map_err_length: "map_err f xs = Inr ys \<Longrightarrow> length ys = length xs"
  by (induction xs arbitrary: ys) (auto split: sum.splits)

lemma get_lvs_decks_ok:
  assumes "lvs_decks (config t) = Some ds"
    and "map_err (\<lambda>d. prepend_dir_path os t (lvs_path d) None) ds = Inr ps"
  shows "fst (get_lvs_decks_for_tool os t tool)
     = Inr (filter (\<lambda>x. lvs_tool_name x = tool) (map2 (\<lambda>d p. d\<lparr>lvs_path := p\<rparr>) ds ps))"
  using assms by (simp add: get_lvs_decks_for_tool_def resolve_lvs_decks_ok)

lemma get_drc_decks_ok:
  assumes "drc_decks (config t) = Some ds"
    and "map_err (\<lambda>d. prepend_dir_path os t (drc_path d) None) ds = Inr ps"
  shows "fst (get_drc_decks_for_tool os t tool)
     = Inr (filter (\<lambda>x. drc_tool_name x = tool) (map2 (\<lambda>d p. d\<lparr>drc_path := p\<rparr>) ds ps))"
  using assms by (simp add: get_drc_decks_for_tool_def resolve_drc_decks_ok)

lemma get_lvs_decks_fail:
  assumes "lvs_decks (config t) = Some ds"
    and "map_err (\<lambda>d. prepend_dir_path os t (lvs_path d) None) ds = Inl e"
  shows "fst (get_lvs_decks_for_tool os t tool) = Inl e"
  using assms resolve_lvs_decks_fail [OF assms(2)]
  by (auto simp: get_lvs_decks_for_tool_def Let_def split: prod.splits option.splits)

lemma get_drc_decks_fail:
  assumes "drc_decks (config t) = Some ds"
    and "map_err (\<lambda>d. prepend_dir_path os t (drc_path d) None) ds = Inl e"
  shows "fst (get_drc_decks_for_tool os t tool) = Inl e"
  using assms resolve_drc_decks_fail [OF assms(2)]
  by (auto simp: get_drc_decks_for_tool_def Let_def split: prod.splits option.splits)

lemma get_lvs_decks_none:
  "lvs_decks (config t) = None \<Longrightarrow> fst (get_lvs_decks_for_tool os t tool) = Inl ValueError_no_lvs_decks"
  by (simp add: get_lvs_decks_for_tool_def)

lemma get_drc_decks_none:
  "drc_decks (config t) = None \<Longrightarrow> fst (get_drc_decks_for_tool os t tool) = Inl ValueError_no_drc_decks"
  by (simp add: get_drc_decks_for_tool_def)

lemma pdk_path: "lvs_path pdk_lvs_deck = ''pdk/lvs.rul''"
  by (simp add: pdk_lvs_deck_def)

lemma filter_map2_lvs_none:
  "\<forall>d\<in>set ds. lvs_tool_name d \<noteq> tool \<Longrightarrow>
   filter (\<lambda>x. lvs_tool_name x = tool) (map2 (\<lambda>d p. d\<lparr>lvs_path := p\<rparr>) ds ps) = []"
  by (auto simp: filter_empty_conv dest: set_zip_leftD)

lemma filter_map2_drc_none:
  "\<forall>d\<in>set ds. drc_tool_name d \<noteq> tool \<Longrightarrow>
   filter (\<lambda>x. drc_tool_name x = tool) (map2 (\<lambda>d p. d\<lparr>drc_path := p\<rparr>) ds ps) = []"
  by (auto simp: filter_empty_conv dest: set_zip_leftD)

lemma unresolved_deck_tech_fields:
  "lvs_decks (config unresolved_deck_tech) = Some [pdk_lvs_deck]"
  "installs (config unresolved_deck_tech) = None"
  "tarballs (config unresolved_deck_tech) = None"
  by (simp_all add: unresolved_deck_tech_def empty_config_def)

lemma unresolved_deck_path_demo:
  "prepend_dir_path demo_os unresolved_deck_tech ''pdk/lvs.rul'' None
     = Inl (ValueError_no_match ''pdk/lvs.rul'' ''pdk'')"
  by (simp add: prepend_dir_path_def isabs_def sep_def collect_prefixes_def install_prefixes_def
      tarball_prefixes_def library_prefixes_def unresolved_deck_tech_fields)

text \<open>
  C9, as stated, fails: an absent deck list is not the only case that raises. The
  accessor resolves the path of every declared deck before it selects by tool name, so a
  deck whose path does not resolve makes the call raise, also for a tool name that no
  deck carries. Here the only LVS deck belongs to \<^verbatim>\<open>calibre\<close>, its prefix \<^verbatim>\<open>pdk\<close> is
  declared nowhere, and the decks of \<^verbatim>\<open>icv\<close> are asked for.
\<close>

theorem get_lvs_decks_for_tool_raises_counterexample:
  "lvs_decks (config unresolved_deck_tech) = Some [pdk_lvs_deck]
   \<and> lvs_tool_name pdk_lvs_deck \<noteq> ''icv''
   \<and> fst (get_lvs_decks_for_tool demo_os unresolved_deck_tech ''icv'')
       = Inl (ValueError_no_match ''pdk/lvs.rul'' ''pdk'')"
proof -
  note p = pdk_path
  have "map_err (\<lambda>d. prepend_dir_path demo_os unresolved_deck_tech (lvs_path d) None) [pdk_lvs_deck]
      = Inl (ValueError_no_match ''pdk/lvs.rul'' ''pdk'')"
    by (simp add: p unresolved_deck_path_demo)
  from get_lvs_decks_fail [OF unresolved_deck_tech_fields(1) this]
  show ?thesis by (simp add: unresolved_deck_tech_fields pdk_lvs_deck_def)
qed

text \<open>
  C9, amended: when the deck list is present and the path of every declared deck
  resolves, the accessor returns exactly the decks whose tool name is the requested one,
  with their paths resolved, hence the empty sequence when no deck carries that tool name
  (also for a deck list that is present but empty). It raises when the deck list is absent
  from the descriptor, and also when the path of some declared deck fails to resolve.
\<close>

theorem deck_accessors_result:
  "(lvs_decks (config t) = None \<longrightarrow>
      fst (get_lvs_decks_for_tool os t tool) = Inl ValueError_no_lvs_decks)
   \<and> (lvs_decks (config t) = Some ds
        \<and> map_err (\<lambda>d. prepend_dir_path os t (lvs_path d) None) ds = Inr ps \<longrightarrow>
      fst (get_lvs_decks_for_tool os t tool)
        = Inr (filter (\<lambda>x. lvs_tool_name x = tool) (map2 (\<lambda>d p. d\<lparr>lvs_path := p\<rparr>) ds ps))
      \<and> ((\<forall>d\<in>set ds. lvs_tool_name d \<noteq> tool) \<longrightarrow> fst (get_lvs_decks_for_tool os t tool) = Inr []))
   \<and> (lvs_decks (config t) = Some ds
        \<and> map_err (\<lambda>d. prepend_dir_path os t (lvs_path d) None) ds = Inl e \<longrightarrow>
      fst (get_lvs_decks_for_tool os t tool) = Inl e)
   \<and> (drc_decks (config t) = None \<longrightarrow>
      fst (get_drc_decks_for_tool os t tool) = Inl ValueError_no_drc_decks)
   \<and> (drc_decks (config t) = Some dds
        \<and> map_err (\<lambda>d. prepend_dir_path os t (drc_path d) None) dds = Inr ps \<longrightarrow>
      fst (get_drc_decks_for_tool os t tool)
        = Inr (filter (\<lambda>x. drc_tool_name x = tool) (map2 (\<lambda>d p. d\<lparr>drc_path := p\<rparr>) dds ps))
      \<and> ((\<forall>d\<in>set dds. drc_tool_name d \<noteq> tool) \<longrightarrow> fst (get_drc_decks_for_tool os t tool) = Inr []))
   \<and> (drc_decks (config t) = Some dds
        \<and> map_err (\<lambda>d. prepend_dir_path os t (drc_path d) None) dds = Inl e \<longrightarrow>
      fst (get_drc_decks_for_tool os t tool) = Inl e)"
  by (intro conjI impI)
     (simp_all add: get_lvs_decks_none get_drc_decks_none get_lvs_decks_ok
       get_drc_decks_ok get_lvs_decks_fail get_drc_decks_fail filter_map2_lvs_none
       filter_map2_drc_none)

theorem deck_accessors_result_witness:
  "fst (get_lvs_decks_for_tool demo_os demo_tech ''icv'') = Inl ValueError_no_lvs_decks
   \<and> fst (get_drc_decks_for_tool demo_os demo_tech ''icv'') = Inl ValueError_no_drc_decks
   \<and> fst (get_lvs_decks_for_tool demo_os deck_tech ''icv'') = Inr []
   \<and> fst (get_drc_decks_for_tool demo_os deck_tech ''icv'') = Inr []
   \<and> fst (get_lvs_decks_for_tool demo_os deck_tech ''calibre'')
       = Inr [cache_lvs_deck\<lparr>lvs_path := ''/c/lvs.rul''\<rparr>]
   \<and> fst (get_lvs_decks_for_tool demo_os unresolved_deck_tech ''icv'')
       = Inl (ValueError_no_match ''pdk/lvs.rul'' ''pdk'')"
proof -
  note th = deck_accessors_result
  have 1: "fst (get_lvs_decks_for_tool demo_os demo_tech ''icv'') = Inl ValueError_no_lvs_decks"
    by (rule th [THEN conjunct1, THEN mp, OF deck_tech_fields(5)])
  have 2: "fst (get_drc_decks_for_tool demo_os demo_tech ''icv'') = Inl ValueError_no_drc_decks"
    by (rule th [THEN conjunct2, THEN conjunct2, THEN conjunct2, THEN conjunct1, THEN mp,
        OF deck_tech_fields(6)])
  have pl: "lvs_path cache_lvs_deck = ''cache/lvs.rul''" "lvs_tool_name cache_lvs_deck = ''calibre''"
    by (simp_all add: cache_lvs_deck_def)
  have pd: "drc_path cache_drc_deck = ''cache/drc.rul''" "drc_tool_name cache_drc_deck = ''calibre''"
    by (simp_all add: cache_drc_deck_def)
  have a: "lvs_decks (config deck_tech) = Some [cache_lvs_deck]
      \<and> map_err (\<lambda>d. prepend_dir_path demo_os deck_tech (lvs_path d) None) [cache_lvs_deck]
          = Inr [''/c/lvs.rul'']"
    by (simp add: deck_tech_fields pl cache_deck_paths_demo)
  have b: "drc_decks (config deck_tech) = Some [cache_drc_deck]
      \<and> map_err (\<lambda>d. prepend_dir_path demo_os deck_tech (drc_path d) None) [cache_drc_deck]
          = Inr [''/c/drc.rul'']"
    by (simp add: deck_tech_fields pd cache_deck_paths_demo)
  have la: "\<forall>d\<in>set [cache_lvs_deck]. lvs_tool_name d \<noteq> ''icv''" by (simp add: pl)
  have lb: "\<forall>d\<in>set [cache_drc_deck]. drc_tool_name d \<noteq> ''icv''" by (simp add: pd)
  have 3: "fst (get_lvs_decks_for_tool demo_os deck_tech ''icv'') = Inr []"
    by (rule th [THEN conjunct2, THEN conjunct1, THEN mp, OF a, THEN conjunct2, THEN mp, OF la])
  have 4: "fst (get_drc_decks_for_tool demo_os deck_tech ''icv'') = Inr []"
    by (rule th [THEN conjunct2, THEN conjunct2, THEN conjunct2, THEN conjunct2, THEN conjunct1,
        THEN mp, OF b, THEN conjunct2, THEN mp, OF lb])
  have "fst (get_lvs_decks_for_tool demo_os deck_tech ''calibre'')
      = Inr (filter (\<lambda>x. lvs_tool_name x = ''calibre'')
               (map2 (\<lambda>d p. d\<lparr>lvs_path := p\<rparr>) [cache_lvs_deck] [''/c/lvs.rul'']))"
    by (rule th [THEN conjunct2, THEN conjunct1, THEN mp, OF a, THEN conjunct1])
  then have 5: "fst (get_lvs_decks_for_tool demo_os deck_tech ''calibre'')
       = Inr [cache_lvs_deck\<lparr>lvs_path := ''/c/lvs.rul''\<rparr>]"
    by (simp add: pl)
  have c: "lvs_decks (config unresolved_deck_tech) = Some [pdk_lvs_deck]
      \<and> map_err (\<lambda>d. prepend_dir_path demo_os unresolved_deck_tech (lvs_path d) None) [pdk_lvs_deck]
          = Inl (ValueError_no_match ''pdk/lvs.rul'' ''pdk'')"
    by (simp add: unresolved_deck_tech_fields pdk_path unresolved_deck_path_demo)
  have 6: "fst (get_lvs_decks_for_tool demo_os unresolved_deck_tech ''icv'')
       = Inl (ValueError_no_match ''pdk/lvs.rul'' ''pdk'')"
    by (rule th [THEN conjunct2, THEN conjunct2, THEN conjunct1, THEN mp, OF c])
  from 1 2 3 4 5 6 show ?thesis by simp
qed

subsection \<open>Splitting and joining paths\<close>

lemma split_sep_prefix: "sep \<notin> set i \<Longrightarrow> split_sep (i @ sep # rest) = i # split_sep rest"
  by (induction i) auto

lemma split_sep_not_Nil: "split_sep p \<noteq> []"
  by (induction p) (auto split: list.splits)

lemma split_sep_no_sep: "s \<in> set (split_sep p) \<Longrightarrow> sep \<notin> set s"
  by (induction p arbitrary: s) (auto split: list.splits if_splits)

lemma split_sep_concat: "split_sep p = s # ss \<Longrightarrow> p = s @ concat (map ((#) sep) ss)"
  by (induction p arbitrary: s ss) (auto simp: split_sep_not_Nil split: list.splits if_splits)

lemma join2_segment:
  "a \<noteq> [] \<Longrightarrow> last a \<noteq> sep \<Longrightarrow> sep \<notin> set b \<Longrightarrow> join2 a b = a @ sep # b"
  by (cases b) (auto simp: join2_def isabs_def)

lemma foldl_join2_segments:
  "a \<noteq> [] \<Longrightarrow> last a \<noteq> sep \<Longrightarrow> \<forall>s\<in>set bs. sep \<notin> set s \<Longrightarrow> [] \<notin> set (butlast bs) \<Longrightarrow>
   foldl join2 a bs = a @ concat (map ((#) sep) bs)"
proof (induction bs arbitrary: a)
  case Nil
  then show ?case by simp
next
  case (Cons b bs)
  have j: "join2 a b = a @ sep # b"
    using Cons.prems by (simp add: join2_segment)
  show ?case
  proof (cases bs)
    case Nil
    with j show ?thesis by simp
  next
    case (Cons c cs)
    with Cons.prems have b: "b \<noteq> []" "sep \<notin> set b" by auto
    then have l: "last (a @ sep # b) \<noteq> sep" by (metis last_appendR last_ConsR last_in_set list.distinct(1))
    have "foldl join2 (a @ sep # b) bs = (a @ sep # b) @ concat (map ((#) sep) bs)"
      using Cons.prems l \<open>bs = c # cs\<close> by (intro Cons.IH) auto
    with j show ?thesis by simp
  qed
qed

lemma join_star_split:
  assumes "[] \<notin> set (butlast (split_sep rest))"
  shows "join_star (split_sep rest) = Inr rest"
proof -
  obtain s ss where sp: "split_sep rest = s # ss"
    using split_sep_not_Nil by (cases "split_sep rest") auto
  show ?thesis
  proof (cases ss)
    case Nil
    with sp split_sep_concat [OF sp] show ?thesis by (simp add: join_star_def path_join_def)
  next
    case (Cons c cs)
    with sp assms have s: "s \<noteq> []" by auto
    have ns: "\<forall>x\<in>set (s # ss). sep \<notin> set x"
      using split_sep_no_sep sp by metis
    then have "last s \<noteq> sep" using s by (metis last_in_set list.set_intros(1))
    moreover have "[] \<notin> set (butlast ss)" using assms sp Cons by auto
    ultimately have "foldl join2 s ss = s @ concat (map ((#) sep) ss)"
      using s ns by (intro foldl_join2_segments) auto
    with sp split_sep_concat [OF sp] show ?thesis by (simp add: join_star_def path_join_def)
  qed
qed

lemma path_join_split:
  assumes "[] \<notin> set (butlast (split_sep rest))"
  shows "path_join d (split_sep rest) = join2 d rest"
proof -
  obtain s ss where sp: "split_sep rest = s # ss"
    using split_sep_not_Nil by (cases "split_sep rest") auto
  note r = split_sep_concat [OF sp]
  show ?thesis
  proof (cases ss)
    case Nil
    with sp r show ?thesis by (simp add: path_join_def)
  next
    case (Cons c cs)
    with sp assms have s: "s \<noteq> []" by auto
    have ns: "\<forall>x\<in>set (s # ss). sep \<notin> set x"
      using split_sep_no_sep sp by metis
    then have ls: "last s \<noteq> sep" and hs: "hd s \<noteq> sep"
      using s by (metis last_in_set list.set_intros(1), metis hd_in_set list.set_intros(1))
    have nabs: "\<not> isabs s" "\<not> isabs rest"
      using s hs r by (cases s; simp add: isabs_def)+
    have bl: "[] \<notin> set (butlast ss)" using assms sp Cons by auto
    have j: "join2 d s \<noteq> []" "last (join2 d s) \<noteq> sep"
      using s ls nabs by (auto simp: join2_def)
    have "foldl join2 (join2 d s) ss = join2 d s @ concat (map ((#) sep) ss)"
      using j ns bl by (intro foldl_join2_segments) auto
    moreover have "join2 d s @ concat (map ((#) sep) ss) = join2 d rest"
      using nabs r by (auto simp: join2_def)
    ultimately show ?thesis using sp by (simp add: path_join_def)
  qed
qed

subsection \<open>Path prefix resolution\<close>

lemma cache_path_segments:
  assumes "cachedir t = Some d"
  shows "prepend_dir_path os t (''cache'' @ sep # rest) lib = Inr (path_join d (split_sep rest))"
proof -
  have n: "sep \<notin> set ''cache''" by (simp add: sep_def)
  have "\<not> isabs (''cache'' @ sep # rest)" by (simp add: isabs_def sep_def)
  with assms split_sep_prefix [OF n, of rest] show ?thesis
    by (simp add: prepend_dir_path_def cache_dir_def)
qed

lemma demo_tech_fields:
  "cachedir demo_tech = Some ''/c''"
  "installs (config demo_tech) = None"
  "tarballs (config demo_tech) = None"
  by (simp_all add: demo_tech_def empty_config_def)

text \<open>
  C6, as stated, fails on a remainder with an empty segment: the code joins the cache
  directory with the segments of the remainder one by one, not with the remainder. For
  \<^verbatim>\<open>cache//x\<close> the remainder is \<^verbatim>\<open>/x\<close>; joined with the cache directory \<^verbatim>\<open>/c\<close> that is
  \<^verbatim>\<open>/x\<close>, and the code returns \<^verbatim>\<open>/c/x\<close>.
\<close>

theorem prepend_dir_path_cache_counterexample:
  "cache_dir demo_tech = Inr ''/c''
   \<and> ''cache//x'' = ''cache'' @ sep # ''/x''
   \<and> prepend_dir_path demo_os demo_tech ''cache//x'' None = Inr ''/c/x''
   \<and> join2 ''/c'' ''/x'' = ''/x''"
  by (simp add: prepend_dir_path_def isabs_def sep_def cache_dir_def path_join_def join2_def
      demo_tech_fields)

text \<open>
  C6, amended: for every path \<^verbatim>\<open>cache/<rest>\<close>, whatever installs, archives and library
  prefixes are declared, \<^verbatim>\<open>prepend_dir_path\<close> returns the cache directory joined with
  the segments of \<^verbatim>\<open><rest>\<close> in turn; that is the cache directory joined with
  \<^verbatim>\<open><rest>\<close> whenever \<^verbatim>\<open><rest>\<close> has no empty segment before its last one (no leading
  and no doubled separator). It raises when no cache directory has been set.
\<close>

theorem prepend_dir_path_cache:
  "(cachedir t = Some d \<longrightarrow>
      prepend_dir_path os t (''cache'' @ sep # rest) lib = Inr (path_join d (split_sep rest)))
   \<and> (cachedir t = Some d \<and> [] \<notin> set (butlast (split_sep rest)) \<longrightarrow>
      prepend_dir_path os t (''cache'' @ sep # rest) lib = Inr (join2 d rest))
   \<and> (cachedir t = None \<longrightarrow>
      prepend_dir_path os t (''cache'' @ sep # rest) lib = Inl ValueError_cache_dir)"
proof (intro conjI impI)
  assume "cachedir t = Some d"
  then show "prepend_dir_path os t (''cache'' @ sep # rest) lib = Inr (path_join d (split_sep rest))"
    by (rule cache_path_segments)
next
  assume a: "cachedir t = Some d \<and> [] \<notin> set (butlast (split_sep rest))"
  then have "path_join d (split_sep rest) = join2 d rest"
    by (intro path_join_split) simp
  with cache_path_segments [of t d os rest lib] a
  show "prepend_dir_path os t (''cache'' @ sep # rest) lib = Inr (join2 d rest)"
    by simp
next
  assume a: "cachedir t = None"
  have n: "sep \<notin> set ''cache''" by (simp add: sep_def)
  have "\<not> isabs (''cache'' @ sep # rest)" by (simp add: isabs_def sep_def)
  with a split_sep_prefix [OF n, of rest]
  show "prepend_dir_path os t (''cache'' @ sep # rest) lib = Inl ValueError_cache_dir"
    by (simp add: prepend_dir_path_def cache_dir_def)
qed

theorem prepend_dir_path_cache_witness:
  "prepend_dir_path demo_os clash_tech ''cache/x/y'' (Some empty_library) = Inr ''/c/x/y''
   \<and> prepend_dir_path demo_os (demo_tech\<lparr>cachedir := None\<rparr>) ''cache/x/y'' None
       = Inl ValueError_cache_dir"
proof -
  have c: "cachedir clash_tech = Some ''/c''" by (simp add: clash_tech_def demo_tech_def)
  have s: "split_sep ''x/y'' = [''x'', ''y'']" by (simp add: sep_def)
  have e: "''cache/x/y'' = ''cache'' @ sep # ''x/y''" by (simp add: sep_def)
  have a: "cachedir clash_tech = Some ''/c'' \<and> [] \<notin> set (butlast (split_sep ''x/y''))"
    by (simp add: c sep_def)
  have "prepend_dir_path demo_os clash_tech (''cache'' @ sep # ''x/y'') (Some empty_library)
      = Inr (join2 ''/c'' ''x/y'')"
    by (rule prepend_dir_path_cache [THEN conjunct2, THEN conjunct1, THEN mp, OF a])
  then have 1: "prepend_dir_path demo_os clash_tech ''cache/x/y'' (Some empty_library) = Inr ''/c/x/y''"
    by (simp add: join2_def isabs_def sep_def)
  have n: "cachedir (demo_tech\<lparr>cachedir := None\<rparr>) = None" by simp
  have "prepend_dir_path demo_os (demo_tech\<lparr>cachedir := None\<rparr>) (''cache'' @ sep # ''x/y'') None
      = Inl ValueError_cache_dir"
    by (rule prepend_dir_path_cache [THEN conjunct2, THEN conjunct2, THEN mp, OF n])
  then have 2: "prepend_dir_path demo_os (demo_tech\<lparr>cachedir := None\<rparr>) ''cache/x/y'' None
       = Inl ValueError_cache_dir"
    by (simp add: sep_def)
  from 1 2 show ?thesis by simp
qed

lemma install_prefixes_length:
  "install_prefixes t i = Inr ps \<Longrightarrow> length ps = length (matching_installs t i)"
  by (auto simp: install_prefixes_def matching_installs_def dest: map_err_length
      split: option.splits if_splits)

lemma tarball_prefixes_length:
  "tarball_prefixes t i = Inr ps \<Longrightarrow> length ps = length (matching_tarballs t i)"
  by (auto simp: tarball_prefixes_def matching_tarballs_def dest: map_err_length
      split: option.splits if_splits)

lemma collect_prefixes_length:
  "collect_prefixes t lib i = Inr ps \<Longrightarrow> length ps = candidates t lib i"
  by (auto simp: collect_prefixes_def candidates_def install_prefixes_length
      tarball_prefixes_length split: sum.splits)

lemma collect_prefixes_none:
  "candidates t lib i = 0 \<Longrightarrow> collect_prefixes t lib i = Inr []"
  by (auto simp: collect_prefixes_def candidates_def install_prefixes_def tarball_prefixes_def
      matching_installs_def matching_tarballs_def split: option.splits)

lemma prepend_dir_path_search:
  assumes "i \<noteq> []" and "sep \<notin> set i" and "i \<noteq> ''cache''"
  shows "prepend_dir_path os t (i @ sep # rest) lib =
     (case collect_prefixes t lib i of
        Inl e \<Rightarrow> Inl e
      | Inr prefixes \<Rightarrow>
          if length prefixes < 1 then Inl (ValueError_no_match (i @ sep # rest) i)
          else if length prefixes > 1 then Inl (ValueError_multiple_match (i @ sep # rest) i)
          else (case join_star (split_sep rest) of
                  Inl e \<Rightarrow> Inl e
                | Inr r \<Rightarrow> Inr (prepend (hd prefixes) r)))"
proof -
  have "\<not> isabs (i @ sep # rest)"
    using assms by (cases i) (auto simp: isabs_def)
  with assms split_sep_prefix [OF assms(2), of rest] show ?thesis
    by (simp add: prepend_dir_path_def)
qed

lemma join_star_total: "\<exists>r. join_star (split_sep rest) = Inr r"
  using split_sep_not_Nil [of rest] by (cases "split_sep rest") (auto simp: join_star_def)

lemma collect_prefixes_demo:
  "collect_prefixes installs_tech None ''pdk'' = Inr [\<lparr>pp_id = ''pdk'', pp_path = ''/pdk''\<rparr>]"
  "collect_prefixes unset_key_tech None ''ip_c'' = Inl ValidationError"
  by (simp_all add: collect_prefixes_def install_prefixes_def tarball_prefixes_def
      library_prefixes_def make_PathPrefix_def get_setting_def installs_tech_def unset_key_tech_def
      demo_tech_def demo_settings_def empty_config_def pdk_install_def ip_a_install_def
      ip_b_install_def ip_c_install_def)

lemma candidates_demo:
  "candidates installs_tech None ''pdk'' = 1"
  "candidates installs_tech None ''nowhere'' = 0"
  "candidates unset_key_tech None ''ip_c'' = 1"
  "candidates clash_tech None ''pdk'' = 2"
  by (simp_all add: candidates_def matching_installs_def matching_tarballs_def
      library_prefixes_def installs_tech_def unset_key_tech_def clash_tech_def demo_tech_def
      empty_config_def pdk_install_def ip_a_install_def ip_b_install_def ip_c_install_def
      pdk_named_tarball_def)

lemma prefix_ids_demo:
  "''pdk'' \<noteq> [] \<and> sep \<notin> set ''pdk'' \<and> ''pdk'' \<noteq> ''cache''"
  "''nowhere'' \<noteq> [] \<and> sep \<notin> set ''nowhere'' \<and> ''nowhere'' \<noteq> ''cache''"
  "''ip_c'' \<noteq> [] \<and> sep \<notin> set ''ip_c'' \<and> ''ip_c'' \<noteq> ''cache''"
  by (simp_all add: sep_def)

text \<open>
  C5, as stated, fails in the case of exactly one candidate. The remainder is split into
  segments and re-joined before it is joined to the candidate's path, so for
  \<^verbatim>\<open>pdk//lvs.rul\<close>, whose remainder \<^verbatim>\<open>/lvs.rul\<close> joined to \<^verbatim>\<open>/pdk\<close> is \<^verbatim>\<open>/lvs.rul\<close>, the
  code returns \<^verbatim>\<open>/pdk/lvs.rul\<close>. And the one candidate can make the call raise: the path
  of an install is a settings key, and for a key that is not configured the construction
  of the prefix fails.
\<close>

theorem prepend_dir_path_one_candidate_counterexample:
  "candidates installs_tech None ''pdk'' = 1
   \<and> ''pdk//lvs.rul'' = ''pdk'' @ sep # ''/lvs.rul''
   \<and> collect_prefixes installs_tech None ''pdk'' = Inr [\<lparr>pp_id = ''pdk'', pp_path = ''/pdk''\<rparr>]
   \<and> prepend_dir_path demo_os installs_tech ''pdk//lvs.rul'' None = Inr ''/pdk/lvs.rul''
   \<and> join2 ''/pdk'' ''/lvs.rul'' = ''/lvs.rul''
   \<and> candidates unset_key_tech None ''ip_c'' = 1
   \<and> prepend_dir_path demo_os unset_key_tech ''ip_c/x.lib'' None = Inl ValidationError"
proof -
  have 1: "prepend_dir_path demo_os installs_tech ''pdk//lvs.rul'' None = Inr ''/pdk/lvs.rul''"
    by (simp add: prepend_dir_path_def isabs_def sep_def collect_prefixes_demo join_star_def
        prepend_def path_join_def join2_def)
  have 2: "prepend_dir_path demo_os unset_key_tech ''ip_c/x.lib'' None = Inl ValidationError"
    by (simp add: prepend_dir_path_def isabs_def sep_def collect_prefixes_demo)
  have 3: "join2 ''/pdk'' ''/lvs.rul'' = ''/lvs.rul''"
    by (simp add: join2_def isabs_def sep_def)
  have 4: "''pdk//lvs.rul'' = ''pdk'' @ sep # ''/lvs.rul''" by (simp add: sep_def)
  from 1 2 3 4 show ?thesis by (simp only: candidates_demo collect_prefixes_demo simp_thms)
qed

text \<open>
  C5, amended: for every non-absolute path \<^verbatim>\<open><id>/<rest>\<close> whose identifier is not
  \<^verbatim>\<open>cache\<close>: with no candidate among the installs, the archive roots and the library's
  extra prefixes, \<^verbatim>\<open>prepend_dir_path\<close> raises, naming the path and the identifier; with
  two or more candidates it raises; a candidate whose own path cannot be looked up makes
  it raise as well. With exactly one candidate, whose path could be looked up, it returns
  that path joined with the re-joined segments of \<^verbatim>\<open><rest>\<close>, which is \<^verbatim>\<open><rest>\<close> itself
  whenever \<^verbatim>\<open><rest>\<close> has no empty segment before its last one.
\<close>

theorem prepend_dir_path_prefix_search:
  assumes "i \<noteq> []" and "sep \<notin> set i" and "i \<noteq> ''cache''"
  shows "(candidates t lib i = 0 \<longrightarrow>
            prepend_dir_path os t (i @ sep # rest) lib = Inl (ValueError_no_match (i @ sep # rest) i))
       \<and> (2 \<le> candidates t lib i \<longrightarrow> (\<exists>e. prepend_dir_path os t (i @ sep # rest) lib = Inl e))
       \<and> (collect_prefixes t lib i = Inl e \<longrightarrow> prepend_dir_path os t (i @ sep # rest) lib = Inl e)
       \<and> (candidates t lib i = 1 \<and> collect_prefixes t lib i = Inr ps \<longrightarrow>
            (\<exists>c r. ps = [c] \<and> join_star (split_sep rest) = Inr r
                \<and> prepend_dir_path os t (i @ sep # rest) lib = Inr (prepend c r)
                \<and> ([] \<notin> set (butlast (split_sep rest)) \<longrightarrow>
                     r = rest \<and> prepend_dir_path os t (i @ sep # rest) lib
                                  = Inr (join2 (pp_path c) rest))))"
proof (intro conjI impI)
  assume "candidates t lib i = 0"
  then show "prepend_dir_path os t (i @ sep # rest) lib = Inl (ValueError_no_match (i @ sep # rest) i)"
    by (simp add: prepend_dir_path_search [OF assms] collect_prefixes_none)
next
  assume a: "2 \<le> candidates t lib i"
  show "\<exists>e. prepend_dir_path os t (i @ sep # rest) lib = Inl e"
  proof (cases "collect_prefixes t lib i")
    case (Inl e)
    then show ?thesis by (simp add: prepend_dir_path_search [OF assms])
  next
    case (Inr ps)
    with a collect_prefixes_length [OF Inr] show ?thesis
      by (simp add: prepend_dir_path_search [OF assms])
  qed
next
  assume "collect_prefixes t lib i = Inl e"
  then show "prepend_dir_path os t (i @ sep # rest) lib = Inl e"
    by (simp add: prepend_dir_path_search [OF assms])
next
  assume a: "candidates t lib i = 1 \<and> collect_prefixes t lib i = Inr ps"
  with collect_prefixes_length [of t lib i ps] have "length ps = 1" by simp
  then obtain c where c: "ps = [c]" by (cases ps) auto
  obtain r where r: "join_star (split_sep rest) = Inr r" using join_star_total by blast
  from a c r have p: "prepend_dir_path os t (i @ sep # rest) lib = Inr (prepend c r)"
    by (simp add: prepend_dir_path_search [OF assms])
  have "[] \<notin> set (butlast (split_sep rest)) \<longrightarrow>
      r = rest \<and> prepend_dir_path os t (i @ sep # rest) lib = Inr (join2 (pp_path c) rest)"
  proof
    assume "[] \<notin> set (butlast (split_sep rest))"
    from join_star_split [OF this] r have "r = rest" by simp
    with p show "r = rest \<and> prepend_dir_path os t (i @ sep # rest) lib = Inr (join2 (pp_path c) rest)"
      by (simp add: prepend_def path_join_def)
  qed
  with c r p show "\<exists>c r. ps = [c] \<and> join_star (split_sep rest) = Inr r
                \<and> prepend_dir_path os t (i @ sep # rest) lib = Inr (prepend c r)
                \<and> ([] \<notin> set (butlast (split_sep rest)) \<longrightarrow>
                     r = rest \<and> prepend_dir_path os t (i @ sep # rest) lib
                                  = Inr (join2 (pp_path c) rest))"
    by blast
qed

theorem prepend_dir_path_prefix_search_witness:
  "prepend_dir_path demo_os installs_tech ''nowhere/x.lib'' None
     = Inl (ValueError_no_match ''nowhere/x.lib'' ''nowhere'')
   \<and> isl (prepend_dir_path demo_os clash_tech ''pdk/x.lib'' None)
   \<and> prepend_dir_path demo_os unset_key_tech ''ip_c/x.lib'' None = Inl ValidationError
   \<and> prepend_dir_path demo_os installs_tech ''pdk/lvs.rul'' None = Inr ''/pdk/lvs.rul''"
proof -
  note pdk = prefix_ids_demo(1) [THEN conjunct1] prefix_ids_demo(1) [THEN conjunct2, THEN conjunct1]
    prefix_ids_demo(1) [THEN conjunct2, THEN conjunct2]
  note nowhere = prefix_ids_demo(2) [THEN conjunct1] prefix_ids_demo(2) [THEN conjunct2, THEN conjunct1]
    prefix_ids_demo(2) [THEN conjunct2, THEN conjunct2]
  note ip_c = prefix_ids_demo(3) [THEN conjunct1] prefix_ids_demo(3) [THEN conjunct2, THEN conjunct1]
    prefix_ids_demo(3) [THEN conjunct2, THEN conjunct2]
  have "prepend_dir_path demo_os installs_tech (''nowhere'' @ sep # ''x.lib'') None
      = Inl (ValueError_no_match (''nowhere'' @ sep # ''x.lib'') ''nowhere'')"
    by (rule prepend_dir_path_prefix_search [OF nowhere, THEN conjunct1, THEN mp,
        OF candidates_demo(2)])
  then have 1: "prepend_dir_path demo_os installs_tech ''nowhere/x.lib'' None
     = Inl (ValueError_no_match ''nowhere/x.lib'' ''nowhere'')"
    by (simp add: sep_def)
  have two: "2 \<le> candidates clash_tech None ''pdk''" by (simp add: candidates_demo)
  have "\<exists>e. prepend_dir_path demo_os clash_tech (''pdk'' @ sep # ''x.lib'') None = Inl e"
    by (rule prepend_dir_path_prefix_search [OF pdk, THEN conjunct2, THEN conjunct1, THEN mp,
        OF two])
  then have 2: "isl (prepend_dir_path demo_os clash_tech ''pdk/x.lib'' None)"
    by (auto simp: sep_def)
  have "prepend_dir_path demo_os unset_key_tech (''ip_c'' @ sep # ''x.lib'') None = Inl ValidationError"
    by (rule prepend_dir_path_prefix_search [OF ip_c, THEN conjunct2, THEN conjunct2,
        THEN conjunct1, THEN mp, OF collect_prefixes_demo(2)])
  then have 3: "prepend_dir_path demo_os unset_key_tech ''ip_c/x.lib'' None = Inl ValidationError"
    by (simp add: sep_def)
  have one: "candidates installs_tech None ''pdk'' = 1
      \<and> collect_prefixes installs_tech None ''pdk'' = Inr [\<lparr>pp_id = ''pdk'', pp_path = ''/pdk''\<rparr>]"
    by (simp add: candidates_demo collect_prefixes_demo)
  have seg: "[] \<notin> set (butlast (split_sep ''lvs.rul''))" by (simp add: sep_def)
  from prepend_dir_path_prefix_search [OF pdk, where os = demo_os and rest = "''lvs.rul''",
      THEN conjunct2, THEN conjunct2, THEN conjunct2, THEN mp, OF one] seg
  have "prepend_dir_path demo_os installs_tech (''pdk'' @ sep # ''lvs.rul'') None
      = Inr (join2 ''/pdk'' ''lvs.rul'')"
    by auto
  then have 4: "prepend_dir_path demo_os installs_tech ''pdk/lvs.rul'' None = Inr ''/pdk/lvs.rul''"
    by (simp add: sep_def join2_def isabs_def)
  from 1 2 3 4 show ?thesis by simp
qed

subsection \<open>Copying a library\<close>

lemma map_err_Inr: "map_err (\<lambda>x. Inr (g x)) xs = Inr (map g xs)"
  by (induction xs) auto

lemma parse_list_json:
  "(\<And>x. f (g x) = Inr x) \<Longrightarrow> parse_list f (json_list g xs) = Inr xs"
  by (induction xs) (auto simp: parse_list_def json_list_def)

lemma parse_opt_json_str: "parse_opt parse_str (Some (json_opt JString x)) = Inr x"
  by (cases x) (auto simp: parse_opt_def json_opt_def parse_str_def bind_err_def)

lemma parse_Corner_json: "parse_Corner (Corner_json c) = Inr c"
  by (simp add: parse_Corner_def Corner_json_def fields_of_def parse_req_def parse_str_def
      bind_err_def)

lemma parse_MinMaxCap_json: "parse_MinMaxCap (MinMaxCap_json c) = Inr c"
  by (simp add: parse_MinMaxCap_def MinMaxCap_json_def fields_of_def parse_req_def parse_str_def
      bind_err_def)

lemma parse_Provide_json: "parse_Provide (Provide_json p) = Inr p"
  by (simp add: parse_Provide_def Provide_json_def fields_of_def parse_req_def parse_str_def
      bind_err_def parse_opt_json_str)

lemma parse_Supplies_json: "parse_Supplies (Supplies_json s) = Inr s"
  by (simp add: parse_Supplies_def Supplies_json_def fields_of_def parse_req_def parse_str_def
      bind_err_def)

lemma parse_SpiceModelFile_json: "parse_SpiceModelFile (SpiceModelFile_json f) = Inr f"
  by (simp add: parse_SpiceModelFile_def SpiceModelFile_json_def fields_of_def parse_req_def
      parse_str_def bind_err_def)

lemma parse_PathPrefix_json: "parse_PathPrefix (PathPrefix_json p) = Inr p"
  by (simp add: parse_PathPrefix_def PathPrefix_json_def fields_of_def parse_req_def
      parse_str_def bind_err_def)

lemma parse_opt_json:
  assumes "\<And>v. f (g v) = Inr v" and "\<And>v. g v \<noteq> JNull"
  shows "parse_opt f (Some (json_opt g x)) = Inr x"
proof (cases x)
  case None
  then show ?thesis by (simp add: parse_opt_def json_opt_def)
next
  case (Some v)
  with assms [of v] show ?thesis
    by (cases "g v") (simp_all add: parse_opt_def json_opt_def bind_err_def)
qed

lemma json_not_null:
  "Corner_json c \<noteq> JNull" "MinMaxCap_json m \<noteq> JNull" "Supplies_json s \<noteq> JNull"
  "SpiceModelFile_json f \<noteq> JNull" "json_list g xs \<noteq> JNull"
  by (simp_all add: Corner_json_def MinMaxCap_json_def Supplies_json_def SpiceModelFile_json_def
      json_list_def)

lemma parse_opt_json_fields:
  "parse_opt parse_Corner (Some (json_opt Corner_json c)) = Inr c"
  "parse_opt parse_MinMaxCap (Some (json_opt MinMaxCap_json m)) = Inr m"
  "parse_opt parse_Supplies (Some (json_opt Supplies_json s)) = Inr s"
  "parse_opt parse_SpiceModelFile (Some (json_opt SpiceModelFile_json f)) = Inr f"
  "parse_opt (parse_list parse_Provide) (Some (json_opt (json_list Provide_json) ps)) = Inr ps"
  "parse_opt (parse_list parse_PathPrefix) (Some (json_opt (json_list PathPrefix_json) eps)) = Inr eps"
  by (rule parse_opt_json; simp add: json_not_null parse_Corner_json parse_MinMaxCap_json
      parse_Supplies_json parse_SpiceModelFile_json parse_list_json parse_Provide_json
      parse_PathPrefix_json)+

lemma parse_Library_json: "parse_Library (Library_json lib) = Inr lib"
proof (cases lib)
  case (fields v1 v2 v3 v4 v5 v6 v7 v8 v9 v10 v11 v12 v13 v14 v15 v16 v17 v18 v19 v20 v21 v22 v23
      v24 v25 v26)
  then show ?thesis
    by (simp add: parse_Library_def Library_json_def fields_of_def bind_err_def
        parse_opt_json_str parse_opt_json_fields)
qed

lemma copy_library_fresh: "copy_library h r = Inr (alloc h (objs h r))"
  by (simp add: copy_library_def parse_Library_json)

text \<open>
  C10: \<^verbatim>\<open>store_into_library\<close> returns a new library object. It equals the contained
  library in every field but \<^verbatim>\<open>extra_prefixes\<close>, which is the one-element list of the
  declared prefix, or the empty list without one, whatever prefixes the contained library
  carried. Every object that existed before, the contained library among them, is as it
  was.
\<close>

theorem store_into_library_copy:
  "\<exists>h'. store_into_library h self = Inr (next_ref h, h')
     \<and> next_ref h' = Suc (next_ref h)
     \<and> objs h' (next_ref h) =
         (objs h (library self))\<lparr>extra_prefixes :=
            Some (case prefix self of None \<Rightarrow> [] | Some p \<Rightarrow> [p])\<rparr>
     \<and> (\<forall>r. r < next_ref h \<longrightarrow> objs h' r = objs h r)"
  by (cases "prefix self")
     (simp_all add: store_into_library_def copy_library_fresh alloc_def)

theorem store_into_library_copy_witness:
  "\<exists>h'. store_into_library demo_heap demo_extra_library = Inr (1, h')
     \<and> extra_prefixes (objs h' 1) = Some [declared_prefix]
     \<and> name (objs h' 1) = Some ''sram''
     \<and> objs h' 0 = stored_library
     \<and> extra_prefixes (objs h' 0) = Some [own_prefix]"
proof -
  have n: "next_ref demo_heap = 1" "objs demo_heap 0 = stored_library"
    "library demo_extra_library = 0" "prefix demo_extra_library = Some declared_prefix"
    by (simp_all add: demo_heap_def demo_extra_library_def)
  from store_into_library_copy [of demo_heap demo_extra_library]
  obtain h' where h: "store_into_library demo_heap demo_extra_library = Inr (next_ref demo_heap, h')"
    and c: "objs h' (next_ref demo_heap) =
         (objs demo_heap (library demo_extra_library))\<lparr>extra_prefixes :=
            Some (case prefix demo_extra_library of None \<Rightarrow> [] | Some p \<Rightarrow> [p])\<rparr>"
    and f: "\<forall>r. r < next_ref demo_heap \<longrightarrow> objs h' r = objs demo_heap r"
    by blast
  from f n have "objs h' 0 = stored_library" by simp
  moreover from c n have "objs h' 1 = stored_library\<lparr>extra_prefixes := Some [declared_prefix]\<rparr>"
    by simp
  ultimately show ?thesis using h n
    by (simp add: stored_library_def)
qed

subsection \<open>De-duplication\<close>






lemma foldl_add_lists: "foldl add_lists acc xss = acc @ concat xss"
  by (induction xss arbitrary: acc) (simp_all add: add_lists_def)

lemma reduce_add_lists: "reduce_list_str add_lists xss [] = concat xss"
  by (simp add: reduce_list_str_def foldl_add_lists)

lemma map_err_isabs:
  "\<forall>p\<in>set paths. isabs p \<Longrightarrow> map_err (\<lambda>path. prepend_dir_path os t path lib) paths = Inr paths"
  by (induction paths) (simp_all add: prepend_dir_path_isabs)

lemma map_err_get_and_prepend:
  "\<forall>lib\<in>set libs. \<exists>ps. paths_func filt lib = Inr ps \<and> (\<forall>p\<in>set ps. isabs p) \<Longrightarrow>
   map_err (get_and_prepend_path os t filt) libs
     = Inr (map (\<lambda>lib. (lib, projr (paths_func filt lib))) libs)"
  by (induction libs) (auto simp: get_and_prepend_path_def map_err_isabs)

lemma process_selected_plain:
  assumes "sort_func filt = None" and "extraction_func filt = None"
    and "extra_post_filter_funcs filt = []"
    and "\<forall>lib\<in>set libs. \<exists>ps. paths_func filt lib = Inr ps \<and> (\<forall>p\<in>set ps. isabs p)"
  shows "process_selected os t filt to_plain_item False uniquify libs =
     Inr (let output_list = concat (map (\<lambda>lib. projr (paths_func filt lib)) libs)
          in if uniquify then in_place_unique output_list else output_list)"
proof -
  have 1: "map_err (\<lambda>lp. identity_extraction_func (fst lp) (snd lp))
        (map (\<lambda>lib. (lib, projr (paths_func filt lib))) libs)
      = Inr (map (\<lambda>lib. projr (paths_func filt lib)) libs)"
    by (induction libs) (simp_all add: identity_extraction_func_def)
  have 2: "\<And>xs. map_err (\<lambda>item. to_plain_item item filt) xs = Inr (map (\<lambda>item. [item]) xs)"
    by (simp add: to_plain_item_def map_err_Inr)
  have 3: "\<And>xs::string list. concat (map (\<lambda>item. [item]) xs) = xs"
    by (induct_tac xs) simp_all
  show ?thesis
    using assms(1-3) map_err_get_and_prepend [OF assms(4), of os t]
    by (simp add: process_selected_def get_or_else_def 1 2 3 reduce_add_lists Let_def)
qed

lemma timing_lib_filter_fields:
  "sort_func timing_lib_filter = None" "extraction_func timing_lib_filter = None"
  "extra_post_filter_funcs timing_lib_filter = []" "filter_func timing_lib_filter = None"
  "paths_func timing_lib_filter = (\<lambda>lib. Inr (timing_lib_paths_func lib))"
  "sort_func timing_db_filter = None" "extraction_func timing_db_filter = None"
  "extra_post_filter_funcs timing_db_filter = []" "filter_func timing_db_filter = None"
  "paths_func timing_db_filter = (\<lambda>lib. Inr (timing_db_paths_func lib))"
  by (simp_all add: timing_lib_filter_def timing_db_filter_def)

lemma lib_abc_paths:
  "timing_lib_paths_func lib_a = [''/a.lib'']" "timing_lib_paths_func lib_b = [''/b.lib'']"
  "timing_lib_paths_func lib_c = [''/c.lib'']"
  by (simp_all add: timing_lib_paths_func_def lib_a_def lib_b_def lib_c_def empty_library_def)



subsection \<open>Timing filters in the pipeline\<close>

lemma map_err_append:
  "map_err f (xs @ ys) =
     (case map_err f xs of
        Inl e \<Rightarrow> Inl e
      | Inr a \<Rightarrow> (case map_err f ys of Inl e \<Rightarrow> Inl e | Inr b \<Rightarrow> Inr (a @ b)))"
  by (induction xs) (auto split: sum.splits)

lemma map_err_insert:
  assumes "f x = Inr y"
  shows "map_err f (xs @ x # ys) =
     (case map_err f xs of
        Inl e \<Rightarrow> Inl e
      | Inr a \<Rightarrow> (case map_err f ys of Inl e \<Rightarrow> Inl e | Inr b \<Rightarrow> Inr (a @ y # b)))"
  using assms by (simp add: map_err_append split: sum.splits)

text \<open>The stages of \<open>process_selected\<close> up to the concatenated output list.\<close>

lemma process_selected_stages:
  assumes "sort_func filt = None" and "extraction_func filt = None"
  shows "process_selected os t filt output_func must_exist uniquify libs =
     (case map_err (get_and_prepend_path os t filt) libs of
        Inl e \<Rightarrow> Inl e
      | Inr lps \<Rightarrow>
          (case (if must_exist then map_err (check_lib_and_paths os filt) lps else Inr lps) of
             Inl e \<Rightarrow> Inl e
           | Inr checked \<Rightarrow>
               (let output_list = concat (map snd checked);
                    unique_list = (if uniquify then in_place_unique output_list else output_list)
                in case apply_post_filters (extra_post_filter_funcs filt) unique_list of
                     Inl e \<Rightarrow> Inl e
                   | Inr after_post_filter \<Rightarrow>
                       (case map_err (\<lambda>item. output_func item filt) after_post_filter of
                          Inl e \<Rightarrow> Inl e
                        | Inr after_output_functions \<Rightarrow> Inr (concat after_output_functions)))))"
proof -
  have "\<And>checked. map_err (\<lambda>lp. identity_extraction_func (fst lp) (snd lp)) checked
      = Inr (map snd checked)"
    by (simp add: identity_extraction_func_def map_err_Inr)
  with assms show ?thesis
    by (simp add: process_selected_def get_or_else_def reduce_add_lists Let_def
        split: sum.split)
qed

lemma process_selected_drop:
  assumes "sort_func filt = None" and "extraction_func filt = None"
    and "paths_func filt lib = Inr []"
  shows "process_selected os t filt output_func must_exist uniquify (xs @ lib # ys)
       = process_selected os t filt output_func must_exist uniquify (xs @ ys)"
proof -
  let ?gap = "get_and_prepend_path os t filt"
  let ?chk = "check_lib_and_paths os filt"
  have g: "?gap lib = Inr (lib, [])"
    using assms(3) by (simp add: get_and_prepend_path_def)
  have c: "?chk (lib, []) = Inr (lib, [])"
    by (simp add: check_lib_and_paths_def)
  note st = process_selected_stages [OF assms(1,2)]
  show ?thesis
  proof (cases "map_err ?gap xs")
    case (Inl e)
    then show ?thesis by (simp add: st g c map_err_append)
  next
    case a: (Inr a)
    show ?thesis
    proof (cases "map_err ?gap ys")
      case (Inl e)
      with a show ?thesis by (simp add: st g c map_err_append)
    next
      case b: (Inr b)
      show ?thesis
      proof (cases must_exist)
        case False
        with a b show ?thesis by (simp add: st g c map_err_append)
      next
        case True
        show ?thesis
        proof (cases "map_err ?chk a")
          case (Inl e)
          with a b True show ?thesis
            by (simp add: st g c map_err_append)
        next
          case a': (Inr a')
          show ?thesis
          proof (cases "map_err ?chk b")
            case (Inl e)
            with a b a' True show ?thesis
              by (simp add: st g c map_err_append)
          next
            case (Inr b')
            with a b a' True show ?thesis
              by (simp add: st g c map_err_append)
          qed
        qed
      qed
    qed
  qed
qed

text \<open>
  Path resolution reads the settings database, the cache directory, the names of the
  technology and its package, the installs and the archives, and nothing else of the
  technology object.
\<close>

lemma prepend_dir_path_reads:
  assumes "database t2 = database t" and "cachedir t2 = cachedir t"
    and "tech_name t2 = tech_name t" and "package t2 = package t"
    and "installs (config t2) = installs (config t)"
    and "tarballs (config t2) = tarballs (config t)"
  shows "prepend_dir_path os t2 path lib = prepend_dir_path os t path lib"
proof -
  have gs: "get_setting t2 = get_setting t"
    using assms(1) by (intro ext) (simp add: get_setting_def)
  have hs: "has_setting t2 = has_setting t"
    using assms(1) by (intro ext) (simp add: has_setting_def)
  have cd: "cache_dir t2 = cache_dir t"
    using assms(2) by (simp add: cache_dir_def)
  have et: "extracted_tarballs_dir t2 = extracted_tarballs_dir t"
    using assms(3) by (simp add: extracted_tarballs_dir_def gs hs cd Let_def
        cong: sum.case_cong setting.case_cong bool.case_cong)
  have ip: "install_prefixes t2 = install_prefixes t"
    using assms(5) by (intro ext) (simp add: install_prefixes_def gs cong: option.case_cong if_cong)
  have tp: "tarball_prefixes t2 = tarball_prefixes t"
    using assms(6) by (intro ext) (simp add: tarball_prefixes_def et cong: option.case_cong if_cong)
  have cp: "collect_prefixes t2 = collect_prefixes t"
    by (intro ext) (simp add: collect_prefixes_def ip tp cong: sum.case_cong)
  show ?thesis
    using assms(4) by (simp add: prepend_dir_path_def cd cp Let_def cong: if_cong sum.case_cong)
qed

lemma process_selected_reads:
  assumes "database t2 = database t" and "cachedir t2 = cachedir t"
    and "tech_name t2 = tech_name t" and "package t2 = package t"
    and "installs (config t2) = installs (config t)"
    and "tarballs (config t2) = tarballs (config t)"
  shows "process_selected os t2 filt output_func must_exist uniquify libs
       = process_selected os t filt output_func must_exist uniquify libs"
proof -
  have "prepend_dir_path os t2 = prepend_dir_path os t"
    by (intro ext) (rule prepend_dir_path_reads [OF assms])
  then have "get_and_prepend_path os t2 filt = get_and_prepend_path os t filt"
    by (intro ext) (simp add: get_and_prepend_path_def cong: sum.case_cong)
  then show ?thesis by (simp add: process_selected_def cong: sum.case_cong if_cong)
qed

text \<open>With a settings database and a logger in place the supply pre-filter never raises,
  decides from the database and the library alone, and at most adds to the log.\<close>

lemma filter_for_supplies_total:
  assumes "database t = Some db" and "logger t = Some ms"
  shows "\<exists>b ms'. filter_for_supplies t lib = (Inr b, t\<lparr>logger := Some ms'\<rparr>)"
proof -
  have same: "t\<lparr>logger := Some ms\<rparr> = t" using assms(2) by simp
  show ?thesis
    using assms
    by (auto simp: filter_for_supplies_def get_setting_def log_msg_def
        split: option.splits intro: exI [of _ ms] same [symmetric])
qed

lemma filter_for_supplies_reads:
  assumes "database t2 = database t" and "database t = Some db"
    and "logger t = Some ms" and "logger t2 = Some ms2"
  shows "fst (filter_for_supplies t2 lib) = fst (filter_for_supplies t lib)"
  using assms
  by (auto simp: filter_for_supplies_def get_setting_def log_msg_def split: option.splits)

lemma select_libs_default:
  assumes "database t = Some db" and "logger t = Some ms"
  shows "\<exists>ms'. select_libs [filter_for_supplies] libs t =
     (Inr (filter (\<lambda>l. fst (filter_for_supplies t l) = Inr True) libs), t\<lparr>logger := Some ms'\<rparr>)"
  using assms
proof (induction libs arbitrary: t ms)
  case Nil
  then have "t\<lparr>logger := Some ms\<rparr> = t" by simp
  then show ?case by (auto intro: exI [of _ ms])
next
  case (Cons lib libs)
  from filter_for_supplies_total [OF Cons.prems, of lib]
  obtain b ms1 where f: "filter_for_supplies t lib = (Inr b, t\<lparr>logger := Some ms1\<rparr>)" by blast
  let ?t1 = "t\<lparr>logger := Some ms1\<rparr>"
  have p: "passes [filter_for_supplies] t lib = (Inr b, ?t1)"
    using f by simp
  have d1: "database ?t1 = Some db" and l1: "logger ?t1 = Some ms1"
    using Cons.prems by simp_all
  from Cons.IH [OF d1 l1]
  obtain ms2 where s: "select_libs [filter_for_supplies] libs ?t1 =
     (Inr (filter (\<lambda>l. fst (filter_for_supplies ?t1 l) = Inr True) libs), ?t1\<lparr>logger := Some ms2\<rparr>)"
    by blast
  have r: "\<And>l. fst (filter_for_supplies ?t1 l) = fst (filter_for_supplies t l)"
    by (rule filter_for_supplies_reads [OF _ Cons.prems(1) Cons.prems(2) l1]) simp
  from p s f show ?case
    by (auto simp: r intro: exI [of _ ms2])
qed

lemma process_library_filter_drop:
  assumes "filter_func filt = None" and "sort_func filt = None" and "extraction_func filt = None"
    and "paths_func filt lib = Inr []"
    and "database t = Some db" and "logger t = Some ms"
    and "libraries (config t) = Some (xs @ lib # ys)"
  shows "fst (process_library_filter os t extra filt default_pre_filters
                output_func must_exist uniquify)
       = fst (process_library_filter os (t\<lparr>config := (config t)\<lparr>libraries := Some (xs @ ys)\<rparr>\<rparr>)
                extra filt default_pre_filters output_func must_exist uniquify)"
proof -
  let ?t0 = "t\<lparr>config := (config t)\<lparr>libraries := Some (xs @ ys)\<rparr>\<rparr>"
  let ?acc = "\<lambda>l. fst (filter_for_supplies t l) = Inr True"
  let ?P = "process_selected os t filt output_func must_exist uniquify"
  have fs: "default_pre_filters
      @ get_or_else (optional_map (filter_func filt) (\<lambda>x. [lift_filter_func x])) []
      = [filter_for_supplies]"
    using assms(1) by (simp add: default_pre_filters_def get_or_else_def optional_map_def)
  have av: "get_available_libraries t extra = xs @ lib # ys @ extra"
    using assms(7) by (simp add: get_available_libraries_def tech_defined_libraries_def)
  have av0: "get_available_libraries ?t0 extra = xs @ ys @ extra"
    by (simp add: get_available_libraries_def tech_defined_libraries_def)
  from select_libs_default [OF assms(5,6), of "xs @ lib # ys @ extra"]
  obtain ms1 where s1: "select_libs [filter_for_supplies] (xs @ lib # ys @ extra) t =
     (Inr (filter ?acc (xs @ lib # ys @ extra)), t\<lparr>logger := Some ms1\<rparr>)" by blast
  have d0: "database ?t0 = Some db" and l0: "logger ?t0 = Some ms"
    using assms(5,6) by simp_all
  from select_libs_default [OF d0 l0, of "xs @ ys @ extra"]
  obtain ms0 where s0: "select_libs [filter_for_supplies] (xs @ ys @ extra) ?t0 =
     (Inr (filter (\<lambda>l. fst (filter_for_supplies ?t0 l) = Inr True) (xs @ ys @ extra)),
      ?t0\<lparr>logger := Some ms0\<rparr>)" by blast
  have acc0: "\<And>l. fst (filter_for_supplies ?t0 l) = fst (filter_for_supplies t l)"
    by (rule filter_for_supplies_reads [OF _ assms(5) assms(6) l0]) simp
  have r1: "process_selected os (t\<lparr>logger := Some ms1\<rparr>) filt output_func must_exist uniquify
      = ?P"
    by (intro ext process_selected_reads) simp_all
  have r0: "process_selected os (?t0\<lparr>logger := Some ms0\<rparr>) filt output_func must_exist uniquify
      = ?P"
    by (intro ext process_selected_reads) simp_all
  have drop: "?P (filter ?acc (xs @ lib # ys @ extra)) = ?P (filter ?acc (xs @ ys @ extra))"
  proof (cases "?acc lib")
    case True
    then have "filter ?acc (xs @ lib # ys @ extra)
        = filter ?acc xs @ lib # filter ?acc (ys @ extra)" by simp
    with process_selected_drop [OF assms(2,3,4), of os t output_func must_exist uniquify
        "filter ?acc xs" "filter ?acc (ys @ extra)"]
    show ?thesis by simp
  next
    case False
    then show ?thesis by simp
  qed
  have lhs: "fst (process_library_filter os t extra filt default_pre_filters
                output_func must_exist uniquify) = ?P (filter ?acc (xs @ lib # ys @ extra))"
    by (simp add: process_library_filter_def fs av s1 r1)
  have rhs: "fst (process_library_filter os ?t0 extra filt default_pre_filters
                output_func must_exist uniquify) = ?P (filter ?acc (xs @ ys @ extra))"
    by (simp add: process_library_filter_def fs av0 s0 r0 acc0)
  from lhs rhs drop show ?thesis by simp
qed

text \<open>
  C7: the \<^verbatim>\<open>paths_func\<close> of both timing filters that prefer CCS yields exactly the CCS
  path of a library that declares one (with or without an NLDM view), exactly the NLDM
  path of a library that declares only that, and the empty list for a library that
  declares neither. Such a library adds nothing to the run of the filter and causes no
  raise: after selection the stages give the result they give without it, and with a
  settings database and a logger in place so does the whole of
  \<^verbatim>\<open>process_library_filter\<close> under the default pre-filter.
\<close>

theorem timing_filters_prefer_ccs:
  "(ccs_library_file lib = Some c \<longrightarrow> paths_func timing_db_filter lib = Inr [c])
   \<and> (ccs_library_file lib = None \<and> nldm_library_file lib = Some n \<longrightarrow>
        paths_func timing_db_filter lib = Inr [n])
   \<and> (ccs_library_file lib = None \<and> nldm_library_file lib = None \<longrightarrow>
        paths_func timing_db_filter lib = Inr [])
   \<and> (ccs_liberty_file lib = Some c \<longrightarrow> paths_func timing_lib_filter lib = Inr [c])
   \<and> (ccs_liberty_file lib = None \<and> nldm_liberty_file lib = Some n \<longrightarrow>
        paths_func timing_lib_filter lib = Inr [n])
   \<and> (ccs_liberty_file lib = None \<and> nldm_liberty_file lib = None \<longrightarrow>
        paths_func timing_lib_filter lib = Inr [])
   \<and> (filt \<in> {timing_db_filter, timing_lib_filter} \<and> paths_func filt lib = Inr [] \<longrightarrow>
        process_selected os t filt output_func must_exist uniquify (xs @ lib # ys)
          = process_selected os t filt output_func must_exist uniquify (xs @ ys))
   \<and> (filt \<in> {timing_db_filter, timing_lib_filter} \<and> paths_func filt lib = Inr []
        \<and> database t \<noteq> None \<and> logger t \<noteq> None
        \<and> libraries (config t) = Some (xs @ lib # ys) \<longrightarrow>
        fst (process_library_filter os t extra filt default_pre_filters
               output_func must_exist uniquify)
          = fst (process_library_filter os (t\<lparr>config := (config t)\<lparr>libraries := Some (xs @ ys)\<rparr>\<rparr>)
                   extra filt default_pre_filters output_func must_exist uniquify))"
proof (intro conjI impI)
  assume a: "filt \<in> {timing_db_filter, timing_lib_filter} \<and> paths_func filt lib = Inr []"
  then have "sort_func filt = None" "extraction_func filt = None"
    by (auto simp: timing_lib_filter_fields)
  with a show "process_selected os t filt output_func must_exist uniquify (xs @ lib # ys)
          = process_selected os t filt output_func must_exist uniquify (xs @ ys)"
    by (intro process_selected_drop) simp_all
next
  assume a: "filt \<in> {timing_db_filter, timing_lib_filter} \<and> paths_func filt lib = Inr []
        \<and> database t \<noteq> None \<and> logger t \<noteq> None
        \<and> libraries (config t) = Some (xs @ lib # ys)"
  then have f: "filter_func filt = None" "sort_func filt = None" "extraction_func filt = None"
    by (auto simp: timing_lib_filter_fields)
  from a obtain db ms where d: "database t = Some db" "logger t = Some ms" by auto
  from a have "paths_func filt lib = Inr []" "libraries (config t) = Some (xs @ lib # ys)"
    by simp_all
  with f d show "fst (process_library_filter os t extra filt default_pre_filters
               output_func must_exist uniquify)
          = fst (process_library_filter os (t\<lparr>config := (config t)\<lparr>libraries := Some (xs @ ys)\<rparr>\<rparr>)
                   extra filt default_pre_filters output_func must_exist uniquify)"
    by (intro process_library_filter_drop)
qed (simp_all add: timing_lib_filter_fields timing_db_paths_func_def timing_lib_paths_func_def)

lemma timing_demo_fields:
  "ccs_library_file ccs_nldm_lib = Some ''/ccs.db''"
  "ccs_liberty_file ccs_nldm_lib = Some ''/ccs.lib''"
  "ccs_library_file nldm_db_lib = None \<and> nldm_library_file nldm_db_lib = Some ''/nldm.db''"
  "ccs_liberty_file lib_a = None \<and> nldm_liberty_file lib_a = Some ''/a.lib''"
  "ccs_library_file empty_library = None \<and> nldm_library_file empty_library = None"
  "ccs_liberty_file empty_library = None \<and> nldm_liberty_file empty_library = None"
  by (simp_all add: ccs_nldm_lib_def nldm_db_lib_def lib_a_def empty_library_def)

lemma timing_two_libs_demo:
  "fst (process_library_filter demo_os
               (timing_tech\<lparr>config := (config timing_tech)\<lparr>libraries := Some [lib_a, lib_b]\<rparr>\<rparr>)
               [] timing_lib_filter default_pre_filters to_plain_item False True)
     = Inr [''/a.lib'', ''/b.lib'']"
proof -
  let ?t = "timing_tech\<lparr>config := (config timing_tech)\<lparr>libraries := Some [lib_a, lib_b]\<rparr>\<rparr>"
  have d0: "database timing_tech = Some demo_settings" "logger timing_tech = Some []"
    by (simp_all add: timing_tech_def demo_tech_def)
  then have d: "database ?t = Some demo_settings" "logger ?t = Some []"
    by simp_all
  have m: "demo_settings ''vlsi.inputs.mmmc_corners'' = Some (SList [])"
    by (simp add: demo_settings_def)
  have sup: "supplies lib_a = None" "supplies lib_b = None"
    "\<not> provides_technology lib_a" "\<not> provides_technology lib_b"
    by (simp_all add: lib_a_def lib_b_def empty_library_def provides_technology_def)
  have acc: "fst (filter_for_supplies ?t lib_a) = Inr True" "fst (filter_for_supplies ?t lib_b) = Inr True"
    by (simp_all add: filter_for_supplies_def get_setting_def d0 m sup log_msg_def)
  from select_libs_default [OF d, of "[lib_a, lib_b]"] acc
  obtain ms' where s: "select_libs [filter_for_supplies] [lib_a, lib_b] ?t
      = (Inr [lib_a, lib_b], ?t\<lparr>logger := Some ms'\<rparr>)" by auto
  have fs: "default_pre_filters
      @ get_or_else (optional_map (filter_func timing_lib_filter) (\<lambda>x. [lift_filter_func x])) []
      = [filter_for_supplies]"
    by (simp add: default_pre_filters_def get_or_else_def optional_map_def timing_lib_filter_fields)
  have av: "get_available_libraries ?t [] = [lib_a, lib_b]"
    by (simp add: get_available_libraries_def tech_defined_libraries_def)
  have h: "sort_func timing_lib_filter = None" "extraction_func timing_lib_filter = None"
      "extra_post_filter_funcs timing_lib_filter = []"
      "\<forall>lib\<in>set [lib_a, lib_b].
            \<exists>ps. paths_func timing_lib_filter lib = Inr ps \<and> (\<forall>p\<in>set ps. isabs p)"
    by (simp_all add: timing_lib_filter_fields lib_abc_paths isabs_def sep_def)
  have "process_selected demo_os (?t\<lparr>logger := Some ms'\<rparr>) timing_lib_filter to_plain_item False True
      [lib_a, lib_b] = Inr [''/a.lib'', ''/b.lib'']"
    by (simp add: process_selected_plain [OF h] timing_lib_filter_fields lib_abc_paths
        in_place_unique_def)
  then show ?thesis
    by (simp add: process_library_filter_def fs av s del: select_libs.simps)
qed

theorem timing_filters_prefer_ccs_witness:
  "paths_func timing_db_filter ccs_nldm_lib = Inr [''/ccs.db'']
   \<and> paths_func timing_db_filter nldm_db_lib = Inr [''/nldm.db'']
   \<and> paths_func timing_db_filter empty_library = Inr []
   \<and> paths_func timing_lib_filter ccs_nldm_lib = Inr [''/ccs.lib'']
   \<and> paths_func timing_lib_filter lib_a = Inr [''/a.lib'']
   \<and> paths_func timing_lib_filter empty_library = Inr []
   \<and> process_selected demo_os demo_tech timing_lib_filter to_plain_item True True
        ([lib_a] @ empty_library # [lib_b])
      = process_selected demo_os demo_tech timing_lib_filter to_plain_item True True ([lib_a] @ [lib_b])
   \<and> fst (process_library_filter demo_os timing_tech [] timing_lib_filter default_pre_filters
            to_plain_item False True) = Inr [''/a.lib'', ''/b.lib'']"
proof -
  note th = timing_filters_prefer_ccs
  have 1: "paths_func timing_db_filter ccs_nldm_lib = Inr [''/ccs.db'']"
    by (rule th [THEN conjunct1, THEN mp, OF timing_demo_fields(1)])
  have 2: "paths_func timing_db_filter nldm_db_lib = Inr [''/nldm.db'']"
    by (rule th [THEN conjunct2, THEN conjunct1, THEN mp, OF timing_demo_fields(3)])
  have 3: "paths_func timing_db_filter empty_library = Inr []"
    by (rule th [THEN conjunct2, THEN conjunct2, THEN conjunct1, THEN mp, OF timing_demo_fields(5)])
  have 4: "paths_func timing_lib_filter ccs_nldm_lib = Inr [''/ccs.lib'']"
    by (rule th [THEN conjunct2, THEN conjunct2, THEN conjunct2, THEN conjunct1, THEN mp,
        OF timing_demo_fields(2)])
  have 5: "paths_func timing_lib_filter lib_a = Inr [''/a.lib'']"
    by (rule th [THEN conjunct2, THEN conjunct2, THEN conjunct2, THEN conjunct2, THEN conjunct1,
        THEN mp, OF timing_demo_fields(4)])
  have 6: "paths_func timing_lib_filter empty_library = Inr []"
    by (rule th [THEN conjunct2, THEN conjunct2, THEN conjunct2, THEN conjunct2, THEN conjunct2,
        THEN conjunct1, THEN mp, OF timing_demo_fields(6)])
  have a: "timing_lib_filter \<in> {timing_db_filter, timing_lib_filter}
      \<and> paths_func timing_lib_filter empty_library = Inr []"
    using 6 by simp
  have 7: "process_selected demo_os demo_tech timing_lib_filter to_plain_item True True
        ([lib_a] @ empty_library # [lib_b])
      = process_selected demo_os demo_tech timing_lib_filter to_plain_item True True ([lib_a] @ [lib_b])"
    by (rule th [THEN conjunct2, THEN conjunct2, THEN conjunct2, THEN conjunct2, THEN conjunct2,
        THEN conjunct2, THEN conjunct1, THEN mp, OF a])
  have b: "timing_lib_filter \<in> {timing_db_filter, timing_lib_filter}
      \<and> paths_func timing_lib_filter empty_library = Inr []
      \<and> database timing_tech \<noteq> None \<and> logger timing_tech \<noteq> None
      \<and> libraries (config timing_tech) = Some ([lib_a] @ empty_library # [lib_b])"
    using 6 by (simp add: timing_tech_def demo_tech_def)
  have "fst (process_library_filter demo_os timing_tech [] timing_lib_filter default_pre_filters
            to_plain_item False True)
      = fst (process_library_filter demo_os
               (timing_tech\<lparr>config := (config timing_tech)\<lparr>libraries := Some ([lib_a] @ [lib_b])\<rparr>\<rparr>)
               [] timing_lib_filter default_pre_filters to_plain_item False True)"
    by (rule th [THEN conjunct2, THEN conjunct2, THEN conjunct2, THEN conjunct2, THEN conjunct2,
        THEN conjunct2, THEN conjunct2, THEN mp, OF b])
  with timing_two_libs_demo
  have 8: "fst (process_library_filter demo_os timing_tech [] timing_lib_filter default_pre_filters
            to_plain_item False True) = Inr [''/a.lib'', ''/b.lib'']"
    by simp
  from 1 2 3 4 5 6 7 8 show ?thesis by (intro conjI)
qed

end
